theory Spec2Isabelle
  imports Complex_Main "HOL-Library.Sublist" "HOL-Library.AList"
begin

section \<open>Strings\<close>

text \<open>
  A Python \<open>str\<close> is modelled as a \<open>string\<close>, a list of 8-bit characters read as
  the code points 0 to 255. \<open>str.lower\<close> on this range maps the ASCII capitals and
  the Latin-1 capitals (192 to 222 except the multiplication sign 215) 32 places up
  and leaves every other character alone; strings with code points above 255 are not
  covered. The Python test \<open>k in q\<close> on two strings is \<open>sublist k q\<close>.
\<close>

definition lower_char :: "char \<Rightarrow> char" where
  "lower_char c =
     (let n = (of_char c :: nat)
      in if (65 \<le> n \<and> n \<le> 90) \<or> (192 \<le> n \<and> n \<le> 222 \<and> n \<noteq> 215)
         then char_of (n + 32) else c)"

definition lower :: "string \<Rightarrow> string" where
  "lower s = map lower_char s"

text \<open>\<open>str(n)\<close> for a Python integer: decimal digits, with a minus sign below zero.\<close>

fun show_nat :: "nat \<Rightarrow> string" where
  "show_nat n =
     (if n < 10 then [char_of (48 + n)]
      else show_nat (n div 10) @ [char_of (48 + n mod 10)])"

declare show_nat.simps [simp del]

definition show_int :: "int \<Rightarrow> string" where
  "show_int i = (if i < 0 then CHR ''-'' # show_nat (nat (- i)) else show_nat (nat i))"

text \<open>\<open>any(k in q for k in ks)\<close>.\<close>

definition any_in :: "string list \<Rightarrow> string \<Rightarrow> bool" where
  "any_in ks q = list_ex (\<lambda>k. sublist k q) ks"

section \<open>QueryEngine.classify\<close>

definition doc_keywords :: "string list" where
  "doc_keywords = [''resume'', ''document'', ''policy'', ''contract'', ''review'', ''pdf'', ''doc'']"

definition sql_keywords :: "string list" where
  "sql_keywords = [''count'', ''average'', ''avg'', ''sum'', ''list'', ''show'', ''who'',
                   ''employees'', ''department'']"

definition classify :: "string \<Rightarrow> string" where
  "classify user_query =
     (let q = lower user_query;
          is_doc = any_in doc_keywords q;
          is_sql = any_in sql_keywords q
      in if is_doc \<and> is_sql then ''hybrid''
         else if is_doc then ''document''
         else ''sql'')"

section \<open>QueryEngine.optimize_sql_query\<close>

definition optimize_sql_query :: "string \<Rightarrow> int \<Rightarrow> int \<Rightarrow> string" where
  "optimize_sql_query sql page page_size =
     (let page' = max 1 page;
          page_size' = max 1 (min 200 page_size);
          offset = (page' - 1) * page_size';
          ql = lower sql
      in if sublist '' limit '' ql then sql
         else sql @ '' LIMIT '' @ show_int page_size' @ '' OFFSET '' @ show_int offset)"

section \<open>Schema discovery: best_match and best_match_from_list\<close>

text \<open>\<open>sep.join(xs)\<close>.\<close>

fun join :: "string \<Rightarrow> string list \<Rightarrow> string" where
  "join sep [] = []"
| "join sep [x] = x"
| "join sep (x # y # ys) = x @ sep @ join sep (y # ys)"

text \<open>
  The dict comprehension \<open>{c.lower(): c for c in candidates}\<close>. A Python dict keeps
  the position of the first insertion of a key and the value of the last one, which is
  what \<open>AList.update\<close> does on an association list.
\<close>

definition cands_lower :: "string list \<Rightarrow> (string \<times> string) list" where
  "cands_lower candidates = fold (\<lambda>c d. AList.update (lower c) c d) candidates []"


text \<open>
  best_match. The fuzzy matcher \<open>extractOne\<close> with the \<open>WRatio\<close> scorer belongs to
  an external library; it is the parameter \<open>extract_one\<close>, which gives the match and
  its score for a token and a non-empty list of choices.
\<close>

definition best_match ::
  "(string \<Rightarrow> string list \<Rightarrow> string \<times> real) \<Rightarrow> string \<Rightarrow> string list \<Rightarrow> string option" where
  "best_match extract_one token candidates =
     (if candidates = [] then None
      else (let (match, score) = extract_one token candidates
            in if score \<ge> 75 then Some match else None))"


section \<open>The schema and map_natural_language_to_schema\<close>

text \<open>
  The schema dict built by analyze_database, as far as the query path reads it: the
  tables in insertion order with their column names, the hint list employee_tables and
  the per-table column hints. A hint is None or a column name.
\<close>

record col_hints =
  h_name :: "string option"
  h_salary :: "string option"
  h_department :: "string option"
  h_date :: "string option"
  h_manager :: "string option"

definition no_hints :: col_hints where
  "no_hints = \<lparr>h_name = None, h_salary = None, h_department = None, h_date = None,
               h_manager = None\<rparr>"

record db_schema =
  tables :: "(string \<times> string list) list"
  employee_tables :: "string list"
  column_maps :: "(string \<times> col_hints) list"

text \<open>Truth value of an optional string: None and the empty string are false.\<close>

definition truthy :: "string option \<Rightarrow> bool" where
  "truthy x = (case x of None \<Rightarrow> False | Some s \<Rightarrow> s \<noteq> [])"

text \<open>An optional string inside an f-string: None prints as \<open>None\<close>.\<close>

definition fmt :: "string option \<Rightarrow> string" where
  "fmt x = (case x of None \<Rightarrow> ''None'' | Some s \<Rightarrow> s)"

text \<open>
  map_natural_language_to_schema: the main table is the first employee table of the
  hints, or the first table when the hint list is empty; the column map is the one of
  that table, or the empty dict.
\<close>

definition map_natural_language_to_schema ::
  "string \<Rightarrow> db_schema \<Rightarrow> string option \<times> col_hints" where
  "map_natural_language_to_schema query sc =
     (let employee_candidates =
            (if employee_tables sc \<noteq> [] then employee_tables sc else map fst (tables sc));
          main_table = (case employee_candidates of [] \<Rightarrow> None | t # _ \<Rightarrow> Some t);
          col_map = (case map_of (column_maps sc)
                            (case main_table of None \<Rightarrow> [] | Some t \<Rightarrow> t) of
                       None \<Rightarrow> no_hints | Some h \<Rightarrow> h)
      in (main_table, col_map))"

section \<open>QueryEngine._run_sql_query: building the statement\<close>

datatype error =
    ValueError string
  | KeyError string
  | IndexError string
  | Raised string

text \<open>
  \<open>re.findall(r"[a-zA-Z_]+", q)\<close>: the maximal runs of ASCII letters and underscores,
  from left to right. \<open>acc\<close> holds the current run, reversed.
\<close>

definition is_word_char :: "char \<Rightarrow> bool" where
  "is_word_char c =
     (let n = (of_char c :: nat)
      in (65 \<le> n \<and> n \<le> 90) \<or> (97 \<le> n \<and> n \<le> 122) \<or> n = 95)"

fun findall_words :: "string \<Rightarrow> string \<Rightarrow> string list" where
  "findall_words acc [] = (if acc = [] then [] else [rev acc])"
| "findall_words acc (c # cs) =
     (if is_word_char c then findall_words (c # acc) cs
      else (if acc = [] then [] else [rev acc]) @ findall_words [] cs)"

definition stop_words :: "string list" where
  "stop_words = [''show'', ''list'', ''me'', ''all'']"

definition query_tokens :: "string \<Rightarrow> string list" where
  "query_tokens q = filter (\<lambda>t. t \<notin> set stop_words) (findall_words [] q)"

text \<open>
  One round of the loop over the tokens: the filter on the name column, the filter and
  the parameter for the department column when there is one, and the parameter of the
  token. \<open>params\<close> is a dict, here an association list updated in place.
\<close>

definition token_step ::
  "string \<Rightarrow> string option \<Rightarrow> string
     \<Rightarrow> string list \<times> (string \<times> string) list \<Rightarrow> string list \<times> (string \<times> string) list" where
  "token_step name_col dept_col tkn st =
     (let (like_filters, params) = st;
          like_filters1 = like_filters @ [''LOWER('' @ name_col @ '') LIKE :'' @ tkn];
          (like_filters2, params2) =
            (if truthy dept_col
             then (like_filters1 @ [''LOWER('' @ fmt dept_col @ '') LIKE :'' @ tkn @ ''_d''],
                   AList.update (tkn @ ''_d'') (''%'' @ tkn @ ''%'') params)
             else (like_filters1, params))
      in (like_filters2, AList.update tkn (''%'' @ tkn @ ''%'') params2))"

definition date_keywords :: "string list" where
  "date_keywords = [''hired this year'', ''joined this year'', ''hired in'', ''join date'']"

text \<open>
  Lines 86 to 113 of _run_sql_query: the chain of branches that picks the statement and
  its bound parameters from the lowercased query \<open>q\<close>.
\<close>

definition sql_template ::
  "string \<Rightarrow> string \<Rightarrow> string option \<Rightarrow> string option \<Rightarrow> string option \<Rightarrow> string
     \<Rightarrow> string \<times> (string \<times> string) list" where
  "sql_template table name_col salary_col dept_col date_col q =
     (if sublist ''how many'' q \<or> (sublist ''count'' q \<and> sublist ''employees'' q)
      then (''SELECT COUNT(*) as count FROM '' @ table, [])
      else if sublist ''average'' q
              \<and> (sublist ''salary'' q \<or> sublist ''pay'' q \<or> sublist ''compensation'' q)
              \<and> truthy dept_col
      then (''SELECT '' @ fmt dept_col @ '' as department, AVG('' @ fmt salary_col
              @ '') as average_salary FROM '' @ table @ '' GROUP BY '' @ fmt dept_col
              @ '' ORDER BY average_salary DESC'', [])
      else if any_in date_keywords q
      then (if truthy date_col
            then (''SELECT * FROM '' @ table @ '' WHERE strftime('' @ [CHR 0x27] @ ''%Y''
                    @ [CHR 0x27] @ '', '' @ fmt date_col @ '') = strftime('' @ [CHR 0x27]
                    @ ''%Y'' @ [CHR 0x27] @ '','' @ [CHR 0x27] @ ''now'' @ [CHR 0x27]
                    @ '') ORDER BY '' @ fmt date_col @ '' DESC'', [])
            else (''SELECT * FROM '' @ table @ '' LIMIT 100'', []))
      else
       (let tokens = query_tokens q;
            (like_filters, params) = fold (token_step name_col dept_col) tokens ([], [])
        in if like_filters \<noteq> []
           then (''SELECT * FROM '' @ table @ '' WHERE '' @ join '' OR '' like_filters, params)
           else (''SELECT * FROM '' @ table, params)))"

text \<open>
  Lines 74 to 114 of _run_sql_query: from the schema, the query and the page to the
  statement text, its bound parameters and the column names of the main table. The
  three failures before the branches are the ValueError of the source, the KeyError of
  \<open>schema["tables"][table]\<close> and the IndexError of \<open>col_names[0]\<close>.
\<close>

definition sql_statement ::
  "db_schema \<Rightarrow> string \<Rightarrow> int \<Rightarrow> int
     \<Rightarrow> error + (string \<times> (string \<times> string) list \<times> string list)" where
  "sql_statement sc user_query page page_size =
     (let (table_opt, columns) = map_natural_language_to_schema user_query sc
      in if \<not> truthy table_opt
         then Inl (ValueError
                ''Could not determine main table. Ensure database has an employee-like table.'')
         else
          (let table = fmt table_opt
           in case map_of (tables sc) table of
                None \<Rightarrow> Inl (KeyError table)
              | Some col_names \<Rightarrow>
                 (let hints = (case map_of (column_maps sc) table of
                                 None \<Rightarrow> no_hints | Some h \<Rightarrow> h)
                  in if \<not> truthy (h_name hints) \<and> col_names = []
                     then Inl (IndexError ''list index out of range'')
                     else
                      (let name_col = (if truthy (h_name hints) then fmt (h_name hints)
                                       else hd col_names);
                           salary_col = h_salary hints;
                           dept_col = h_department hints;
                           date_col = h_date hints;
                           q = lower user_query;
                           (sql, params) =
                              sql_template table name_col salary_col dept_col date_col q
                       in Inr (optimize_sql_query sql page page_size, params, col_names)))))"

section \<open>The values that cross the database and the vector store\<close>

datatype pyval = PNone | PBool bool | PInt int | PFloat real | PStr string

type_synonym row = "(string \<times> pyval) list"

record document =
  page_content :: string
  metadata :: "(string \<times> pyval) list"
  score :: "real option"

record doc_result =
  dr_text :: string
  dr_metadata :: "(string \<times> pyval) list"

record sql_result =
  sr_columns :: "string list"
  sr_rows :: "row list"
  sr_page :: int
  sr_page_size :: int

text \<open>
  The \<open>results\<close> entry of a payload: the list of document hits, the table of an SQL
  query, the dict \<open>{"table": ..., "documents": ...}\<close> of a hybrid query, or the dict
  \<open>{"error": ...}\<close>.
\<close>

datatype results =
    DocResults "doc_result list"
  | SqlResults sql_result
  | HybridResults sql_result "doc_result list"
  | ErrorResult string

record payload =
  query_type :: string
  results :: results
  sources :: "(string \<times> pyval) list list"
  response_time_ms :: int
  cache_hit :: bool
  cache_hits :: int
  cache_misses :: int

section \<open>The world outside the engine\<close>

text \<open>
  What a call of process_query takes from outside: the database behind \<open>execute\<close>
  (statement and bound parameters to rows, or an exception), the vector store (absent,
  or a retriever from \<open>k\<close> and the query to documents, or an exception), \<open>repr\<close> on a
  string (the text of a KeyError), the measured response time in milliseconds and the
  reading of the clock for the history entry.
\<close>

record world =
  execute :: "string \<Rightarrow> (string \<times> string) list \<Rightarrow> error + row list"
  vectorstore :: "(int \<Rightarrow> string \<Rightarrow> error + document list) option"
  repr_str :: "string \<Rightarrow> string"
  elapsed_ms :: int
  clock :: real

text \<open>\<open>str(e)\<close>.\<close>

definition str_exc :: "(string \<Rightarrow> string) \<Rightarrow> error \<Rightarrow> string" where
  "str_exc rp e =
     (case e of ValueError m \<Rightarrow> m | KeyError k \<Rightarrow> rp k | IndexError m \<Rightarrow> m | Raised m \<Rightarrow> m)"

section \<open>QueryCache\<close>

text \<open>
  The TTL cache is an external collaborator: \<open>store\<close> is the set of its live entries.
  Expiry and eviction remove entries between calls; they are not steps of the engine.
\<close>

record query_cache =
  store :: "string \<rightharpoonup> payload"
  hits :: int
  misses :: int

definition cache_get :: "query_cache \<Rightarrow> string \<Rightarrow> payload option \<times> query_cache" where
  "cache_get c key =
     (case store c key of
        None \<Rightarrow> (None, c\<lparr>misses := misses c + 1\<rparr>)
      | Some v \<Rightarrow> (Some v, c\<lparr>hits := hits c + 1\<rparr>))"

definition cache_set :: "query_cache \<Rightarrow> string \<Rightarrow> payload \<Rightarrow> query_cache" where
  "cache_set c key v = c\<lparr>store := (store c)(key \<mapsto> v)\<rparr>"

section \<open>AppState\<close>

record history_entry =
  he_query :: string
  he_type :: string
  he_ts :: real

record job =
  status :: string
  processed :: int
  total :: int
  errors :: "string list"

record app_state =
  schema :: db_schema
  cache :: query_cache
  query_history :: "history_entry list"
  jobs :: "string \<rightharpoonup> job"

section \<open>QueryEngine._run_sql_query and _search_documents\<close>

definition run_sql_query :: "world \<Rightarrow> db_schema \<Rightarrow> string \<Rightarrow> int \<Rightarrow> int \<Rightarrow> error + sql_result" where
  "run_sql_query w sc user_query page page_size =
     (case sql_statement sc user_query page page_size of
        Inl e \<Rightarrow> Inl e
      | Inr (sql, params, col_names) \<Rightarrow>
         (case execute w sql params of
            Inl e \<Rightarrow> Inl e
          | Inr rows \<Rightarrow>
             Inr \<lparr>sr_columns = (case rows of [] \<Rightarrow> col_names | r # _ \<Rightarrow> map fst r),
                  sr_rows = rows, sr_page = page, sr_page_size = page_size\<rparr>))"

text \<open>A Python slice \<open>xs[a:b]\<close>: an index below zero counts from the end.\<close>

definition py_slice :: "'a list \<Rightarrow> int \<Rightarrow> int \<Rightarrow> 'a list" where
  "py_slice xs a b =
     (let n = int (length xs);
          a' = (if a < 0 then max 0 (n + a) else min n a);
          b' = (if b < 0 then max 0 (n + b) else min n b)
      in take (nat (b' - a')) (drop (nat a') xs))"

definition score_val :: "real option \<Rightarrow> pyval" where
  "score_val s = (case s of None \<Rightarrow> PNone | Some x \<Rightarrow> PFloat x)"

definition search_documents ::
  "world \<Rightarrow> string \<Rightarrow> int \<Rightarrow> int \<Rightarrow> error + (doc_result list \<times> (string \<times> pyval) list list)" where
  "search_documents w user_query page page_size =
     (case vectorstore w of
        None \<Rightarrow> Inr ([], [])
      | Some retriever \<Rightarrow>
         (case retriever page_size user_query of
            Inl e \<Rightarrow> Inl e
          | Inr docs \<Rightarrow>
             (let start = (page - 1) * page_size;
                  end = start + page_size;
                  docs' = py_slice docs start end
              in Inr (map (\<lambda>d. \<lparr>dr_text = page_content d, dr_metadata = metadata d\<rparr>) docs',
                      map (\<lambda>d. AList.update ''score'' (score_val (score d)) (metadata d)) docs'))))"

section \<open>QueryEngine.process_query\<close>

definition cache_key :: "string \<Rightarrow> int \<Rightarrow> int \<Rightarrow> string" where
  "cache_key user_query page page_size =
     user_query @ ''|'' @ show_int page @ ''|'' @ show_int page_size"

text \<open>
  Lines 41 to 56: the routing on the class of the query. An exception of either backend
  leaves \<open>sources\<close> as it was initialised, the empty list.
\<close>

definition answer ::
  "world \<Rightarrow> db_schema \<Rightarrow> string \<Rightarrow> int \<Rightarrow> int
     \<Rightarrow> string \<times> results \<times> (string \<times> pyval) list list" where
  "answer w sc user_query page page_size =
     (let qtype = classify user_query;
          outcome =
            (if qtype = ''document''
             then (case search_documents w user_query page page_size of
                     Inl e \<Rightarrow> Inl e
                   | Inr (res, srcs) \<Rightarrow> Inr (DocResults res, srcs))
             else if qtype = ''sql''
             then (case run_sql_query w sc user_query page page_size of
                     Inl e \<Rightarrow> Inl e
                   | Inr res \<Rightarrow> Inr (SqlResults res, []))
             else (case run_sql_query w sc user_query page page_size of
                     Inl e \<Rightarrow> Inl e
                   | Inr sql_results \<Rightarrow>
                      (case search_documents w user_query page page_size of
                         Inl e \<Rightarrow> Inl e
                       | Inr (doc_results, doc_sources) \<Rightarrow>
                          Inr (HybridResults sql_results doc_results, doc_sources))))
      in case outcome of
           Inl e \<Rightarrow> (''error'', ErrorResult (str_exc (repr_str w) e), [])
         | Inr (res, srcs) \<Rightarrow> (qtype, res, srcs))"

text \<open>
  process_query. On a hit the cached dict itself is changed and returned, so the entry
  of the cache changes with it. On a miss the payload is built, the history gets its
  entry and is cut to its last 50, and the payload is stored.
\<close>

definition process_query ::
  "world \<Rightarrow> app_state \<Rightarrow> string \<Rightarrow> int \<Rightarrow> int \<Rightarrow> payload \<times> app_state" where
  "process_query w s user_query page page_size =
     (let key = cache_key user_query page page_size;
          (cached, c) = cache_get (cache s) key
      in case cached of
           Some p \<Rightarrow>
             (let p' = p\<lparr>response_time_ms := elapsed_ms w, cache_hit := True\<rparr>
              in (p', s\<lparr>cache := c\<lparr>store := (store c)(key \<mapsto> p')\<rparr>\<rparr>))
         | None \<Rightarrow>
             (let (qtype, res, srcs) = answer w (schema s) user_query page page_size;
                  p = \<lparr>query_type = qtype, results = res, sources = srcs,
                       response_time_ms = elapsed_ms w, cache_hit = False,
                       cache_hits = hits c, cache_misses = misses c\<rparr>;
                  h = query_history s @ [\<lparr>he_query = user_query, he_type = qtype, he_ts = clock w\<rparr>];
                  h' = drop (length h - 50) h
              in (p, s\<lparr>query_history := h', cache := cache_set c key p\<rparr>)))"

section \<open>The ingestion routes: upload_documents and get_status\<close>

datatype http_error = HTTPException int string

record upload_file =
  filename :: "string option"
  content :: string

record upload_response =
  ur_job_id :: string
  ur_accepted :: int

record status_response =
  st_job_id :: string
  st_status :: string
  st_processed :: int
  st_total :: int
  st_errors :: "string list"

text \<open>
  What upload_documents takes from outside: whether the storage directories can be
  prepared and whether \<open>aiofiles\<close> can be imported (None, or the text of the
  exception), the string of the UUID that \<open>uuid4\<close> draws, and the file system behind
  \<open>save\<close>: writing a content under a name in the uploads directory gives the new
  file system and None, or the text of the exception.
\<close>

record 'fs upload_env =
  ensure_storage_dirs :: "string option"
  aiofiles_import :: "string option"
  uuid4 :: string
  save :: "'fs \<Rightarrow> string \<Rightarrow> string \<Rightarrow> 'fs \<times> string option"

text \<open>\<open>s.split(sep)[-1]\<close>: what follows the last separator.\<close>

definition last_segment :: "char \<Rightarrow> string \<Rightarrow> string" where
  "last_segment sep s = rev (takeWhile (\<lambda>c. c \<noteq> sep) (rev s))"

definition safe_name :: "upload_file \<Rightarrow> string" where
  "safe_name f =
     last_segment (CHR 0x5C)
       (last_segment CHR ''/'' (if truthy (filename f) then fmt (filename f) else ''upload.bin''))"

text \<open>
  One round of the loop over the files: a saved file is appended to \<open>saved_paths\<close>,
  a failed one leaves its line in the errors of the job.
\<close>

definition save_step ::
  "('fs \<Rightarrow> string \<Rightarrow> string \<Rightarrow> 'fs \<times> string option) \<Rightarrow> upload_file
     \<Rightarrow> 'fs \<times> string list \<times> string list \<Rightarrow> 'fs \<times> string list \<times> string list" where
  "save_step sv f st =
     (let (fs, saved_paths, errs) = st;
          (fs', exc) = sv fs (safe_name f) (content f)
      in case exc of
           None \<Rightarrow> (fs', saved_paths @ [safe_name f], errs)
         | Some e \<Rightarrow> (fs', saved_paths, errs @ [safe_name f @ '': '' @ e]))"

text \<open>
  upload_documents, up to the response. The result holds the response or the HTTP
  error, the jobs and the file system after the call, and the saved paths handed to the
  background task, which runs after the response.
\<close>

definition upload_documents ::
  "'fs upload_env \<Rightarrow> (string \<rightharpoonup> job) \<Rightarrow> 'fs \<Rightarrow> upload_file list
     \<Rightarrow> (http_error + upload_response) \<times> (string \<rightharpoonup> job) \<times> 'fs \<times> string list" where
  "upload_documents env js fs files =
     (case ensure_storage_dirs env of
        Some e \<Rightarrow> (Inl (HTTPException 500 (''Failed to prepare storage: '' @ e)), js, fs, [])
      | None \<Rightarrow>
         if files = []
         then (Inl (HTTPException 400 ''No files provided for upload.''), js, fs, [])
         else
          (let job_id = uuid4 env;
               js1 = js(job_id \<mapsto> \<lparr>status = ''queued'', processed = 0,
                                     total = int (length files), errors = []\<rparr>)
           in case aiofiles_import env of
                Some e \<Rightarrow> (Inl (HTTPException 500 (''aiofiles not available: '' @ e)), js1, fs, [])
              | None \<Rightarrow>
                 (let (fs', saved_paths, errs) = fold (save_step (save env)) files (fs, [], []);
                      js2 = js1(job_id \<mapsto> \<lparr>status = ''queued'', processed = 0,
                                             total = int (length saved_paths), errors = errs\<rparr>)
                  in (Inr \<lparr>ur_job_id = job_id, ur_accepted = int (length saved_paths)\<rparr>,
                      js2, fs', saved_paths))))"

definition get_status :: "(string \<rightharpoonup> job) \<Rightarrow> string \<Rightarrow> http_error + status_response" where
  "get_status js job_id =
     (case js job_id of
        None \<Rightarrow> Inl (HTTPException 404 ''Job not found'')
      | Some info \<Rightarrow>
         Inr \<lparr>st_job_id = job_id, st_status = status info, st_processed = processed info,
              st_total = total info, st_errors = errors info\<rparr>)"

section \<open>Reference definitions and sample inputs\<close>

text \<open>
  The reading of the search "synonyms in list order, first containing candidate" on
  the candidate list itself, to compare best_match_from_list with.
\<close>

fun first_containing :: "string list \<Rightarrow> string list \<Rightarrow> string option" where
  "first_containing [] cs = None"
| "first_containing (s # ss) cs =
     (case find (\<lambda>c. sublist s (lower c)) cs of
        Some c \<Rightarrow> Some c
      | None \<Rightarrow> first_containing ss cs)"

text \<open>Filling a dict key by key, and the last candidate with a given lowercased name.\<close>

definition upd_all :: "('a \<Rightarrow> 'k) \<Rightarrow> 'a list \<Rightarrow> ('k \<times> 'a) list \<Rightarrow> ('k \<times> 'a) list" where
  "upd_all f cs d = fold (\<lambda>c d. AList.update (f c) c d) cs d"



text \<open>The schema of the test database of the repository, with the hints it gets.\<close>

definition demo_schema :: db_schema where
  "demo_schema =
     \<lparr>tables = [(''departments'', [''dept_id'', ''dept_name'', ''manager_id'']),
                (''employees'', [''emp_id'', ''full_name'', ''dept_id'', ''position'',
                                 ''annual_salary'', ''join_date'', ''office_location''])],
      employee_tables = [''employees''],
      column_maps =
        [(''departments'', \<lparr>h_name = Some ''dept_name'', h_salary = None,
                             h_department = Some ''dept_id'', h_date = None,
                             h_manager = Some ''manager_id''\<rparr>),
         (''employees'', \<lparr>h_name = Some ''full_name'', h_salary = Some ''annual_salary'',
                           h_department = Some ''dept_id'', h_date = Some ''join_date'',
                           h_manager = None\<rparr>)]\<rparr>"

text \<open>A schema whose only table has a name with the word "Limit" in it.\<close>

definition limit_schema :: db_schema where
  "limit_schema =
     \<lparr>tables = [(''Limit Orders'', [''id'', ''amount''])],
      employee_tables = [],
      column_maps = []\<rparr>"

definition empty_schema :: db_schema where
  "empty_schema = \<lparr>tables = [], employee_tables = [], column_maps = []\<rparr>"

definition demo_rows :: "row list" where
  "demo_rows = [[(''count'', PInt 3)]]"

definition demo_docs :: "document list" where
  "demo_docs = [\<lparr>page_content = ''Alice: Python, SQL'',
                 metadata = [(''filename'', PStr ''alice.pdf''), (''chunk'', PInt 0)],
                 score = None\<rparr>]"

definition demo_world :: world where
  "demo_world =
     \<lparr>execute = (\<lambda>sql params. Inr demo_rows),
      vectorstore = Some (\<lambda>k q. Inr demo_docs),
      repr_str = (\<lambda>s. [CHR 0x27] @ s @ [CHR 0x27]),
      elapsed_ms = 12,
      clock = 2\<rparr>"

definition broken_world :: world where
  "broken_world =
     \<lparr>execute = (\<lambda>sql params. Inl (Raised ''no such table: employees'')),
      vectorstore = None,
      repr_str = (\<lambda>s. [CHR 0x27] @ s @ [CHR 0x27]),
      elapsed_ms = 7,
      clock = 3\<rparr>"

text \<open>The state after set_connection: a new cache, no history.\<close>

definition init_state :: "db_schema \<Rightarrow> app_state" where
  "init_state sc =
     \<lparr>schema = sc, cache = \<lparr>store = Map.empty, hits = 0, misses = 0\<rparr>,
      query_history = [], jobs = Map.empty\<rparr>"

section \<open>The states the service can reach\<close>

text \<open>
  AppState starts with an empty history; set_connection installs a schema and a new
  cache; process_query is the only code that writes the history; between calls the TTL
  cache may drop entries; the ingestion routes and their background task write the
  jobs only.
\<close>

inductive reachable :: "app_state \<Rightarrow> bool" where
  reach_init: "reachable (init_state sc)"
| reach_connect:
    "reachable s \<Longrightarrow>
     reachable (s\<lparr>schema := sc, cache := \<lparr>store = Map.empty, hits = 0, misses = 0\<rparr>\<rparr>)"
| reach_expire:
    "reachable s \<Longrightarrow> reachable (s\<lparr>cache := (cache s)\<lparr>store := store (cache s) |` A\<rparr>\<rparr>)"
| reach_query:
    "reachable s \<Longrightarrow> reachable (snd (process_query w s q page page_size))"
| reach_jobs:
    "reachable s \<Longrightarrow> reachable (s\<lparr>jobs := js\<rparr>)"

section \<open>Reference definitions for the generated statement\<close>

text \<open>A lowercase ASCII letter or an underscore.\<close>

definition bind_char :: "char \<Rightarrow> bool" where
  "bind_char c = (let n = (of_char c :: nat) in (97 \<le> n \<and> n \<le> 122) \<or> n = 95)"

text \<open>The LIKE filters of one token: its only part that comes from the query is the
  name of the bind parameter after the colon.\<close>

definition like_filters_of :: "string \<Rightarrow> string option \<Rightarrow> string \<Rightarrow> string list" where
  "like_filters_of name_col dept_col t =
     (''LOWER('' @ name_col @ '') LIKE :'' @ t)
       # (if truthy dept_col then [''LOWER('' @ fmt dept_col @ '') LIKE :'' @ t @ ''_d''] else [])"

text \<open>The statements that are built from names of the schema alone.\<close>

definition schema_only_sql :: "string \<Rightarrow> col_hints \<Rightarrow> string set" where
  "schema_only_sql table hints =
     {''SELECT COUNT(*) as count FROM '' @ table,
      ''SELECT '' @ fmt (h_department hints) @ '' as department, AVG(''
         @ fmt (h_salary hints) @ '') as average_salary FROM '' @ table
         @ '' GROUP BY '' @ fmt (h_department hints) @ '' ORDER BY average_salary DESC'',
      ''SELECT * FROM '' @ table @ '' WHERE strftime('' @ [CHR 0x27] @ ''%Y'' @ [CHR 0x27]
         @ '', '' @ fmt (h_date hints) @ '') = strftime('' @ [CHR 0x27] @ ''%Y'' @ [CHR 0x27]
         @ '','' @ [CHR 0x27] @ ''now'' @ [CHR 0x27] @ '') ORDER BY '' @ fmt (h_date hints)
         @ '' DESC'',
      ''SELECT * FROM '' @ table @ '' LIMIT 100'',
      ''SELECT * FROM '' @ table}"

text \<open>The main table of the schema, its hints and its name column.\<close>

definition main_table :: "db_schema \<Rightarrow> string option" where
  "main_table sc = fst (map_natural_language_to_schema [] sc)"

definition hints_of :: "db_schema \<Rightarrow> string \<Rightarrow> col_hints" where
  "hints_of sc table = (case map_of (column_maps sc) table of None \<Rightarrow> no_hints | Some h \<Rightarrow> h)"

definition name_col_of :: "db_schema \<Rightarrow> string \<Rightarrow> string list \<Rightarrow> string" where
  "name_col_of sc table col_names =
     (if truthy (h_name (hints_of sc table)) then fmt (h_name (hints_of sc table))
      else hd col_names)"

section \<open>The writes of an upload, one after the other\<close>

text \<open>
  The reference reading of "the files actually saved": the files are written in list
  order, each on the file system the one before has left; the trace holds for each file
  its safe name and the outcome of its write (None, or the text of the exception),
  and comes with the file system after the last write.
\<close>

fun save_trace ::
  "('fs \<Rightarrow> string \<Rightarrow> string \<Rightarrow> 'fs \<times> string option) \<Rightarrow> 'fs \<Rightarrow> upload_file list
     \<Rightarrow> 'fs \<times> (string \<times> string option) list" where
  "save_trace sv fs [] = (fs, [])"
| "save_trace sv fs (f # files) =
     (let (fs1, exc) = sv fs (safe_name f) (content f);
          (fs', tr) = save_trace sv fs1 files
      in (fs', (safe_name f, exc) # tr))"

text \<open>The names whose write succeeded, and the error lines of those whose write failed.\<close>

definition saved_names :: "(string \<times> string option) list \<Rightarrow> string list" where
  "saved_names tr = map fst (filter (\<lambda>(n, exc). exc = None) tr)"

definition error_lines :: "(string \<times> string option) list \<Rightarrow> string list" where
  "error_lines tr = map (\<lambda>(n, exc). n @ '': '' @ the exc) (filter (\<lambda>(n, exc). exc \<noteq> None) tr)"

section \<open>A sample upload environment\<close>

text \<open>
  The uploads directory as the list of the names written so far; writing under the
  empty name, which is the directory itself, fails.
\<close>

definition demo_upload_env :: "string list upload_env" where
  "demo_upload_env =
     \<lparr>ensure_storage_dirs = None, aiofiles_import = None,
      uuid4 = ''6f1c2a9e-0000-4000-8000-000000000001'',
      save = (\<lambda>fs name data. if name = [] then (fs, Some ''Is a directory'')
                              else (fs @ [name], None))\<rparr>"

text \<open>A file system that refuses every write.\<close>

definition full_disk_env :: "string list upload_env" where
  "full_disk_env =
     \<lparr>ensure_storage_dirs = None, aiofiles_import = None,
      uuid4 = ''6f1c2a9e-0000-4000-8000-000000000002'',
      save = (\<lambda>fs name data. (fs, Some ''No space left on device''))\<rparr>"

definition demo_files :: "upload_file list" where
  "demo_files =
     [\<lparr>filename = Some ''cv/alice.pdf'', content = ''%PDF''\<rparr>,
      \<lparr>filename = Some ''policies/'', content = ''text''\<rparr>,
      \<lparr>filename = None, content = ''data''\<rparr>]"

section \<open>Reading a cache key back\<close>

text \<open>The query of a key "q|page|page_size": what precedes the last two bars.\<close>

definition key_query :: "string \<Rightarrow> string" where
  "key_query k =
     rev (tl (dropWhile (\<lambda>c. c \<noteq> CHR ''|'') (tl (dropWhile (\<lambda>c. c \<noteq> CHR ''|'') (rev k)))))"

text \<open>Every cached payload of a query classified as sql has no sources.\<close>

definition sql_sources_empty :: "app_state \<Rightarrow> bool" where
  "sql_sources_empty s =
     (\<forall>k p. store (cache s) k = Some p \<longrightarrow> classify (key_query k) = ''sql'' \<longrightarrow> sources p = [])"

section \<open>Properties of classify\<close>

lemma any_in_iff: "any_in ks q \<longleftrightarrow> (\<exists>k \<in> set ks. sublist k q)"
  by (simp add: any_in_def list_ex_iff)

text \<open>
  C2. For every query string, classify returns exactly one of hybrid, document and sql:
  hybrid iff the lowercased query contains a document keyword and an SQL keyword,
  document iff it contains a document keyword and no SQL keyword, and sql in every
  other case, so also when it contains no keyword at all.
\<close>

theorem classify_cases:
  "classify uq \<in> {''hybrid'', ''document'', ''sql''}
   \<and> (classify uq = ''hybrid'' \<longleftrightarrow>
        (\<exists>k \<in> set doc_keywords. sublist k (lower uq)) \<and> (\<exists>k \<in> set sql_keywords. sublist k (lower uq)))
   \<and> (classify uq = ''document'' \<longleftrightarrow>
        (\<exists>k \<in> set doc_keywords. sublist k (lower uq)) \<and> \<not> (\<exists>k \<in> set sql_keywords. sublist k (lower uq)))
   \<and> (classify uq = ''sql'' \<longleftrightarrow> \<not> (\<exists>k \<in> set doc_keywords. sublist k (lower uq)))
   \<and> (\<not> (\<exists>k \<in> set (doc_keywords @ sql_keywords). sublist k (lower uq)) \<longrightarrow> classify uq = ''sql'')"
  by (auto simp: classify_def Let_def any_in_iff)

theorem classify_cases_witness:
  "classify ''Show me resumes for employees'' = ''hybrid''
   \<and> classify ''Find the policy on leave'' = ''document''
   \<and> classify ''How many employees do we have?'' = ''sql''
   \<and> \<not> (\<exists>k \<in> set (doc_keywords @ sql_keywords). sublist k (lower ''Alice''))
   \<and> classify ''Alice'' = ''sql''"
proof -
  have h: "\<not> (\<exists>k \<in> set (doc_keywords @ sql_keywords). sublist k (lower ''Alice''))"
    by code_simp
  have a: "classify ''Show me resumes for employees'' = ''hybrid''" by code_simp
  have b: "classify ''Find the policy on leave'' = ''document''" by code_simp
  have c: "classify ''How many employees do we have?'' = ''sql''" by code_simp
  from classify_cases [of "''Alice''"] h have "classify ''Alice'' = ''sql''" by blast
  with h a b c show ?thesis by blast
qed

section \<open>Properties of optimize_sql_query\<close>

lemma lower_append: "lower (a @ b) = lower a @ lower b"
  by (simp add: lower_def)

lemma lower_limit: "lower '' LIMIT '' = '' limit ''"
  by code_simp

lemma sublist_limit_appended: "sublist '' limit '' (lower (sql @ '' LIMIT '' @ rest))"
proof -
  have "lower (sql @ '' LIMIT '' @ rest) = lower sql @ '' limit '' @ lower rest"
    by (simp only: lower_append lower_limit)
  then show ?thesis by (simp only: sublist_appendI)
qed

lemma optimize_sql_query_idem:
  "optimize_sql_query (optimize_sql_query sql page page_size) page' page_size'
     = optimize_sql_query sql page page_size"
proof (cases "sublist '' limit '' (lower sql)")
  case True
  then show ?thesis by (simp add: optimize_sql_query_def Let_def)
next
  case False
  then show ?thesis
    using sublist_limit_appended by (simp add: optimize_sql_query_def Let_def)
qed

text \<open>
  C9. optimize_sql_query is bounded and idempotent. A statement whose lowercased text
  does not contain " limit " gets " LIMIT s OFFSET o" appended, where s is page_size
  clamped into 1..200 and o is (max(page, 1) - 1) * s; a statement that contains it is
  returned unchanged; so a second application, with any page and page_size, changes
  nothing.
\<close>

theorem optimize_sql_query_spec:
  "(\<not> sublist '' limit '' (lower sql) \<longrightarrow>
      optimize_sql_query sql page page_size =
        sql @ '' LIMIT '' @ show_int (max 1 (min 200 page_size))
            @ '' OFFSET '' @ show_int ((max 1 page - 1) * max 1 (min 200 page_size)))
   \<and> 1 \<le> max 1 (min 200 page_size) \<and> max 1 (min 200 page_size) \<le> 200
   \<and> 0 \<le> (max 1 page - 1) * max 1 (min 200 page_size)
   \<and> (sublist '' limit '' (lower sql) \<longrightarrow> optimize_sql_query sql page page_size = sql)
   \<and> optimize_sql_query (optimize_sql_query sql page page_size) page' page_size'
        = optimize_sql_query sql page page_size"
  using optimize_sql_query_idem [of sql page page_size page' page_size']
  by (simp add: optimize_sql_query_def Let_def)

theorem optimize_sql_query_spec_witness:
  "\<not> sublist '' limit '' (lower ''SELECT * FROM employees'')
   \<and> optimize_sql_query ''SELECT * FROM employees'' 3 500
       = ''SELECT * FROM employees LIMIT 200 OFFSET 400''
   \<and> sublist '' limit '' (lower ''SELECT * FROM employees LIMIT 100'')
   \<and> optimize_sql_query ''SELECT * FROM employees LIMIT 100'' 3 500
       = ''SELECT * FROM employees LIMIT 100''
   \<and> optimize_sql_query (optimize_sql_query ''SELECT * FROM employees'' 3 500) (-7) 0
       = optimize_sql_query ''SELECT * FROM employees'' 3 500"
proof -
  have h1: "\<not> sublist '' limit '' (lower ''SELECT * FROM employees'')" by code_simp
  have h2: "sublist '' limit '' (lower ''SELECT * FROM employees LIMIT 100'')" by code_simp
  have s: "show_int (max 1 (min 200 500)) = ''200''"
          "show_int ((max 1 3 - 1) * max 1 (min 200 500)) = ''400''"
    by code_simp+
  from optimize_sql_query_spec [of "''SELECT * FROM employees''" 3 500 "-7" 0] h1
  have a: "optimize_sql_query ''SELECT * FROM employees'' 3 500
             = ''SELECT * FROM employees'' @ '' LIMIT '' @ show_int (max 1 (min 200 500))
                 @ '' OFFSET '' @ show_int ((max 1 3 - 1) * max 1 (min 200 500))"
    and c: "optimize_sql_query (optimize_sql_query ''SELECT * FROM employees'' 3 500) (-7) 0
             = optimize_sql_query ''SELECT * FROM employees'' 3 500"
    by blast+
  from optimize_sql_query_spec [of "''SELECT * FROM employees LIMIT 100''" 3 500 1 1] h2
  have b: "optimize_sql_query ''SELECT * FROM employees LIMIT 100'' 3 500
             = ''SELECT * FROM employees LIMIT 100''"
    by blast
  from a s have a': "optimize_sql_query ''SELECT * FROM employees'' 3 500
       = ''SELECT * FROM employees LIMIT 200 OFFSET 400''"
    by simp
  from h1 h2 a' b c show ?thesis by blast
qed

section \<open>Properties of best_match_from_list\<close>

lemma upd_all_Nil [simp]: "upd_all f [] d = d"
  by (simp add: upd_all_def)

lemma upd_all_Cons [simp]: "upd_all f (c # cs) d = upd_all f cs (AList.update (f c) c d)"
  by (simp add: upd_all_def)



lemma find_None_notin: "find P xs = None \<Longrightarrow> x \<in> set xs \<Longrightarrow> \<not> P x"
  by (auto simp: find_None_iff)






lemma cands_lower_upd_all: "cands_lower cs = upd_all lower cs []"
  by (simp add: cands_lower_def upd_all_def)










lemma first_containing_order:
  "first_containing syns cs = Some c \<Longrightarrow>
     \<exists>pre s post rest front.
        syns = pre @ s # post \<and> cs = front @ c # rest \<and> sublist s (lower c)
        \<and> (\<forall>c' \<in> set front. \<not> sublist s (lower c'))
        \<and> (\<forall>s' \<in> set pre. \<forall>c' \<in> set cs. \<not> sublist s' (lower c'))"
proof (induction syns)
  case Nil
  then show ?case by simp
next
  case (Cons s syns)
  show ?case
  proof (cases "find (\<lambda>c. sublist s (lower c)) cs")
    case None
    with Cons.prems have "first_containing syns cs = Some c" by simp
    from Cons.IH [OF this] obtain pre s0 post rest front where
      h: "syns = pre @ s0 # post" "cs = front @ c # rest" "sublist s0 (lower c)"
         "\<forall>c' \<in> set front. \<not> sublist s0 (lower c')"
         "\<forall>s' \<in> set pre. \<forall>c' \<in> set cs. \<not> sublist s' (lower c')"
      by blast
    from None have n: "\<forall>c' \<in> set cs. \<not> sublist s (lower c')" by (simp add: find_None_iff)
    have "s # syns = (s # pre) @ s0 # post" using h(1) by simp
    moreover have "\<forall>s' \<in> set (s # pre). \<forall>c' \<in> set cs. \<not> sublist s' (lower c')"
      using h(5) n by simp
    ultimately show ?thesis using h(2,3,4) by blast
  next
    case (Some c0)
    with Cons.prems have c0: "c0 = c" by simp
    from Some c0 obtain i where
      i: "i < length cs" "sublist s (lower (cs ! i))" "c = cs ! i"
         "\<forall>j<i. \<not> sublist s (lower (cs ! j))"
      by (auto simp: find_Some_iff)
    have cs: "cs = take i cs @ c # drop (Suc i) cs"
      using i(1,3) by (simp add: id_take_nth_drop)
    have fr: "\<forall>c' \<in> set (take i cs). \<not> sublist s (lower c')"
      using i(1,4) by (auto simp: in_set_conv_nth)
    have "s # syns = [] @ s # syns" by simp
    moreover have "\<forall>s' \<in> set []. \<forall>c' \<in> set cs. \<not> sublist s' (lower c')" by simp
    ultimately show ?thesis using cs fr i(2,3) by blast
  qed
qed

lemma best_match_None_empty: "best_match ex token [] = None"
  by (simp add: best_match_def)

lemma cands_lower_keys_set: "fst ` set (cands_lower cs) = lower ` set cs"
proof -
  have "\<And>d. fst ` set (upd_all lower cs d) = fst ` set d \<union> lower ` set cs"
    by (induction cs) (auto simp: dom_update)
  then show ?thesis by (simp add: cands_lower_upd_all)
qed





section \<open>Properties of process_query\<close>

lemma process_query_miss:
  assumes "store (cache s) (cache_key q page ps) = None"
  shows "process_query w s q page ps =
     (let c = (cache s)\<lparr>misses := misses (cache s) + 1\<rparr>;
          (qtype, res, srcs) = answer w (schema s) q page ps;
          p = \<lparr>query_type = qtype, results = res, sources = srcs,
               response_time_ms = elapsed_ms w, cache_hit = False,
               cache_hits = hits c, cache_misses = misses c\<rparr>;
          h = query_history s @ [\<lparr>he_query = q, he_type = qtype, he_ts = clock w\<rparr>]
      in (p, s\<lparr>query_history := drop (length h - 50) h, cache := cache_set c (cache_key q page ps) p\<rparr>))"
  using assms by (simp add: process_query_def cache_get_def Let_def split: prod.splits)

lemma process_query_hit:
  assumes "store (cache s) (cache_key q page ps) = Some p"
  shows "process_query w s q page ps =
     (p\<lparr>response_time_ms := elapsed_ms w, cache_hit := True\<rparr>,
      s\<lparr>cache := (cache s)\<lparr>hits := hits (cache s) + 1,
            store := (store (cache s))(cache_key q page ps \<mapsto>
                        p\<lparr>response_time_ms := elapsed_ms w, cache_hit := True\<rparr>)\<rparr>\<rparr>)"
  using assms by (simp add: process_query_def cache_get_def Let_def)

lemma process_query_miss_stored:
  assumes "store (cache s) (cache_key q page ps) = None"
  shows "store (cache (snd (process_query w s q page ps))) (cache_key q page ps)
           = Some (fst (process_query w s q page ps))"
  by (simp add: process_query_miss [OF assms] Let_def cache_set_def split: prod.splits)

text \<open>
  C3. On a cache miss process_query stores the payload it returns under the key
  "q|page|page_size", the query and the two numbers in decimal joined by bars. A later
  call with the same query, page and page size that still finds the entry returns that
  payload with cache.hit set to true (and the response time of the new call), whatever
  the database and the vector store would answer: no statement is built and no search
  is run, and the history is left alone.
\<close>

theorem process_query_cached:
  assumes "store (cache s) (cache_key q page ps) = None"
  shows "cache_key q page ps = q @ ''|'' @ show_int page @ ''|'' @ show_int ps
       \<and> store (cache (snd (process_query w s q page ps))) (cache_key q page ps)
           = Some (fst (process_query w s q page ps))
       \<and> cache_hit (fst (process_query w s q page ps)) = False
       \<and> (\<forall>w' s2. store (cache s2) (cache_key q page ps) = Some (fst (process_query w s q page ps)) \<longrightarrow>
             fst (process_query w' s2 q page ps)
               = (fst (process_query w s q page ps))
                    \<lparr>response_time_ms := elapsed_ms w', cache_hit := True\<rparr>
           \<and> cache_hit (fst (process_query w' s2 q page ps)) = True
           \<and> query_history (snd (process_query w' s2 q page ps)) = query_history s2)"
proof -
  have a: "store (cache (snd (process_query w s q page ps))) (cache_key q page ps)
           = Some (fst (process_query w s q page ps))"
    by (rule process_query_miss_stored [OF assms])
  have b: "cache_hit (fst (process_query w s q page ps)) = False"
    by (simp add: process_query_miss [OF assms] Let_def split: prod.splits)
  have c: "fst (process_query w' s2 q page ps) = p\<lparr>response_time_ms := elapsed_ms w', cache_hit := True\<rparr>
           \<and> cache_hit (fst (process_query w' s2 q page ps)) = True
           \<and> query_history (snd (process_query w' s2 q page ps)) = query_history s2"
    if "store (cache s2) (cache_key q page ps) = Some p" for w' s2 p
    by (simp add: process_query_hit [OF that])
  have k: "cache_key q page ps = q @ ''|'' @ show_int page @ ''|'' @ show_int ps"
    by (simp add: cache_key_def)
  from k a b c show ?thesis by blast
qed

theorem process_query_cached_witness:
  "store (cache (init_state demo_schema)) (cache_key ''How many employees do we have?'' 1 50) = None
   \<and> cache_key ''How many employees do we have?'' 1 50 = ''How many employees do we have?|1|50''
   \<and> fst (process_query demo_world (init_state demo_schema) ''How many employees do we have?'' 1 50)
       = \<lparr>query_type = ''sql'',
          results = SqlResults \<lparr>sr_columns = [''count''], sr_rows = [[(''count'', PInt 3)]],
                                 sr_page = 1, sr_page_size = 50\<rparr>,
          sources = [], response_time_ms = 12, cache_hit = False, cache_hits = 0,
          cache_misses = 1\<rparr>
   \<and> fst (process_query broken_world
            (snd (process_query demo_world (init_state demo_schema)
                    ''How many employees do we have?'' 1 50))
            ''How many employees do we have?'' 1 50)
       = \<lparr>query_type = ''sql'',
          results = SqlResults \<lparr>sr_columns = [''count''], sr_rows = [[(''count'', PInt 3)]],
                                 sr_page = 1, sr_page_size = 50\<rparr>,
          sources = [], response_time_ms = 7, cache_hit = True, cache_hits = 0,
          cache_misses = 1\<rparr>"
proof -
  let ?q = "''How many employees do we have?''"
  let ?s = "init_state demo_schema"
  have m: "store (cache ?s) (cache_key ?q 1 50) = None"
    by (simp add: init_state_def)
  have p: "fst (process_query demo_world ?s ?q 1 50)
       = \<lparr>query_type = ''sql'',
          results = SqlResults \<lparr>sr_columns = [''count''], sr_rows = [[(''count'', PInt 3)]],
                                 sr_page = 1, sr_page_size = 50\<rparr>,
          sources = [], response_time_ms = 12, cache_hit = False, cache_hits = 0,
          cache_misses = 1\<rparr>"
    by code_simp
  note T = process_query_cached [OF m, of demo_world]
  have sp: "show_int 1 = ''1''" "show_int 50 = ''50''" by code_simp+
  from T [THEN conjunct1]
  have ck: "cache_key ?q 1 50 = ''How many employees do we have?|1|50''"
    by (simp add: sp)
  from T [THEN conjunct2, THEN conjunct2, THEN conjunct2, rule_format,
          OF T [THEN conjunct2, THEN conjunct1], of broken_world]
  have "fst (process_query broken_world (snd (process_query demo_world ?s ?q 1 50)) ?q 1 50)
          = (fst (process_query demo_world ?s ?q 1 50))
               \<lparr>response_time_ms := elapsed_ms broken_world, cache_hit := True\<rparr>"
    by (rule conjunct1)
  then have h: "fst (process_query broken_world (snd (process_query demo_world ?s ?q 1 50)) ?q 1 50)
       = \<lparr>query_type = ''sql'',
          results = SqlResults \<lparr>sr_columns = [''count''], sr_rows = [[(''count'', PInt 3)]],
                                 sr_page = 1, sr_page_size = 50\<rparr>,
          sources = [], response_time_ms = 7, cache_hit = True, cache_hits = 0,
          cache_misses = 1\<rparr>"
    by (simp add: p broken_world_def)
  from m ck p h show ?thesis by (intro conjI)
qed

lemma answer_error:
  assumes "(classify q = ''sql'' \<and> run_sql_query w sc q page ps = Inl e)
         \<or> (classify q = ''document'' \<and> search_documents w q page ps = Inl e)
         \<or> (classify q = ''hybrid''
              \<and> (run_sql_query w sc q page ps = Inl e
                  \<or> (\<exists>r. run_sql_query w sc q page ps = Inr r) \<and> search_documents w q page ps = Inl e))"
  shows "answer w sc q page ps = (''error'', ErrorResult (str_exc (repr_str w) e), [])"
  using assms by (auto simp: answer_def Let_def)

text \<open>
  C8. When the backend a query is routed to raises (the SQL part first, for a hybrid
  query), process_query still returns: the payload has query_type "error" and results
  {"error": message}, it is stored in the cache under the same key, and a later
  identical query that still finds the entry is served the cached error payload.
\<close>

theorem process_query_error_cached:
  assumes miss: "store (cache s) (cache_key q page ps) = None"
    and fail: "(classify q = ''sql'' \<and> run_sql_query w (schema s) q page ps = Inl e)
         \<or> (classify q = ''document'' \<and> search_documents w q page ps = Inl e)
         \<or> (classify q = ''hybrid''
              \<and> (run_sql_query w (schema s) q page ps = Inl e
                  \<or> (\<exists>r. run_sql_query w (schema s) q page ps = Inr r)
                     \<and> search_documents w q page ps = Inl e))"
  shows "query_type (fst (process_query w s q page ps)) = ''error''
       \<and> results (fst (process_query w s q page ps)) = ErrorResult (str_exc (repr_str w) e)
       \<and> store (cache (snd (process_query w s q page ps))) (cache_key q page ps)
           = Some (fst (process_query w s q page ps))
       \<and> (\<forall>w' s2. store (cache s2) (cache_key q page ps) = Some (fst (process_query w s q page ps)) \<longrightarrow>
             query_type (fst (process_query w' s2 q page ps)) = ''error''
           \<and> results (fst (process_query w' s2 q page ps)) = ErrorResult (str_exc (repr_str w) e)
           \<and> cache_hit (fst (process_query w' s2 q page ps)) = True)"
proof -
  let ?p = "fst (process_query w s q page ps)"
  have an: "answer w (schema s) q page ps = (''error'', ErrorResult (str_exc (repr_str w) e), [])"
    by (rule answer_error [OF fail])
  have a: "query_type ?p = ''error''" and b: "results ?p = ErrorResult (str_exc (repr_str w) e)"
    by (simp_all add: process_query_miss [OF miss] an Let_def)
  have c: "store (cache (snd (process_query w s q page ps))) (cache_key q page ps) = Some ?p"
    by (rule process_query_miss_stored [OF miss])
  have d: "query_type (fst (process_query w' s2 q page ps)) = ''error''
           \<and> results (fst (process_query w' s2 q page ps)) = ErrorResult (str_exc (repr_str w) e)
           \<and> cache_hit (fst (process_query w' s2 q page ps)) = True"
    if "store (cache s2) (cache_key q page ps) = Some ?p" for w' s2
    by (simp add: process_query_hit [OF that] a b)
  from a b c d show ?thesis by blast
qed

theorem process_query_error_cached_witness:
  "store (cache (init_state empty_schema)) (cache_key ''How many employees do we have?'' 1 50) = None
   \<and> classify ''How many employees do we have?'' = ''sql''
   \<and> run_sql_query demo_world (schema (init_state empty_schema)) ''How many employees do we have?'' 1 50
        = Inl (ValueError
            ''Could not determine main table. Ensure database has an employee-like table.'')
   \<and> query_type (fst (process_query demo_world (init_state empty_schema)
                          ''How many employees do we have?'' 1 50)) = ''error''
   \<and> results (fst (process_query demo_world (init_state empty_schema)
                       ''How many employees do we have?'' 1 50))
        = ErrorResult ''Could not determine main table. Ensure database has an employee-like table.''
   \<and> results (fst (process_query demo_world
                       (snd (process_query demo_world (init_state empty_schema)
                               ''How many employees do we have?'' 1 50))
                       ''How many employees do we have?'' 1 50))
        = ErrorResult ''Could not determine main table. Ensure database has an employee-like table.''
   \<and> cache_hit (fst (process_query demo_world
                       (snd (process_query demo_world (init_state empty_schema)
                               ''How many employees do we have?'' 1 50))
                       ''How many employees do we have?'' 1 50)) = True"
proof -
  let ?q = "''How many employees do we have?''"
  let ?s = "init_state empty_schema"
  let ?m = "''Could not determine main table. Ensure database has an employee-like table.''"
  have m: "store (cache ?s) (cache_key ?q 1 50) = None"
    by (simp add: init_state_def)
  have c: "classify ?q = ''sql''" by code_simp
  have r: "run_sql_query demo_world (schema ?s) ?q 1 50 = Inl (ValueError ?m)" by code_simp
  have f: "(classify ?q = ''sql'' \<and> run_sql_query demo_world (schema ?s) ?q 1 50 = Inl (ValueError ?m))
         \<or> (classify ?q = ''document'' \<and> search_documents demo_world ?q 1 50 = Inl (ValueError ?m))
         \<or> (classify ?q = ''hybrid''
              \<and> (run_sql_query demo_world (schema ?s) ?q 1 50 = Inl (ValueError ?m)
                  \<or> (\<exists>r. run_sql_query demo_world (schema ?s) ?q 1 50 = Inr r)
                     \<and> search_documents demo_world ?q 1 50 = Inl (ValueError ?m)))"
    using c r by (intro disjI1 conjI)
  have e: "str_exc (repr_str demo_world) (ValueError ?m) = ?m"
    by (simp add: str_exc_def)
  note T = process_query_error_cached [OF m f, unfolded e]
  note U = T [THEN conjunct2, THEN conjunct2, THEN conjunct2, rule_format,
              OF T [THEN conjunct2, THEN conjunct2, THEN conjunct1], of demo_world]
  from m c r T [THEN conjunct1] T [THEN conjunct2, THEN conjunct1]
       U [THEN conjunct2, THEN conjunct1] U [THEN conjunct2, THEN conjunct2]
  show ?thesis by (intro conjI)
qed

lemma answer_hybrid:
  assumes "classify q = ''hybrid''" "run_sql_query w sc q page ps = Inr t"
          "search_documents w q page ps = Inr (d, srcs)"
  shows "answer w sc q page ps = (''hybrid'', HybridResults t d, srcs)"
  using assms by (simp add: answer_def Let_def)

lemma answer_sql_sources:
  assumes "classify q = ''sql''"
  shows "snd (snd (answer w sc q page ps)) = []"
  using assms by (simp add: answer_def Let_def split: sum.splits)

lemma show_nat_digits: "\<forall>c \<in> set (show_nat n). 48 \<le> (of_char c :: nat) \<and> (of_char c :: nat) \<le> 57"
proof (induction n rule: show_nat.induct)
  case (1 n)
  show ?case
  proof (cases "n < 10")
    case True
    then show ?thesis by (subst show_nat.simps) simp
  next
    case False
    have "n mod 10 < 10" by simp
    then have "48 + n mod 10 < 256" by linarith
    with False 1 show ?thesis by (subst show_nat.simps) auto
  qed
qed

lemma show_int_no_bar: "CHR ''|'' \<notin> set (show_int i)"
proof -
  have "CHR ''|'' \<notin> set (show_nat n)" for n
    using show_nat_digits [of n] by auto
  then show ?thesis by (auto simp: show_int_def)
qed

lemma dropWhile_no_sep:
  "sep \<notin> set a \<Longrightarrow> dropWhile (\<lambda>c. c \<noteq> sep) (a @ sep # rest) = sep # rest"
  by (induction a) auto

lemma key_query_cache_key: "key_query (cache_key q page ps) = q"
proof -
  let ?a = "rev (show_int page)" and ?b = "rev (show_int ps)"
  have a: "CHR ''|'' \<notin> set ?a" and b: "CHR ''|'' \<notin> set ?b"
    using show_int_no_bar by simp_all
  have "rev (cache_key q page ps) = ?b @ CHR ''|'' # (?a @ CHR ''|'' # rev q)"
    by (simp add: cache_key_def)
  then show ?thesis
    by (simp add: key_query_def dropWhile_no_sep [OF b] dropWhile_no_sep [OF a])
qed

lemma reachable_sql_sources: "reachable s \<Longrightarrow> sql_sources_empty s"
proof (induction rule: reachable.induct)
  case (reach_init sc)
  then show ?case by (simp add: sql_sources_empty_def init_state_def)
next
  case (reach_connect s sc)
  then show ?case by (simp add: sql_sources_empty_def)
next
  case (reach_expire s A)
  then show ?case
    by (auto simp: sql_sources_empty_def restrict_map_def split: if_splits)
next
  case (reach_jobs s js)
  then show ?case by (simp add: sql_sources_empty_def)
next
  case (reach_query s w q page page_size)
  let ?key = "cache_key q page page_size"
  show ?case
  proof (cases "store (cache s) ?key")
    case None
    have src: "classify q = ''sql'' \<Longrightarrow> snd (snd (answer w (schema s) q page page_size)) = []"
      by (rule answer_sql_sources)
    show ?thesis
      unfolding sql_sources_empty_def
    proof (intro allI impI)
      fix k p
      assume st: "store (cache (snd (process_query w s q page page_size))) k = Some p"
        and cl: "classify (key_query k) = ''sql''"
      show "sources p = []"
      proof (cases "k = ?key")
        case True
        with cl have "classify q = ''sql''" by (simp add: key_query_cache_key)
        from src [OF this] st True show ?thesis
          by (auto simp: process_query_miss [OF None] Let_def cache_set_def split: prod.splits)
      next
        case False
        with st have "store (cache s) k = Some p"
          by (auto simp: process_query_miss [OF None] Let_def cache_set_def split: prod.splits)
        with reach_query.IH cl show ?thesis by (auto simp: sql_sources_empty_def)
      qed
    qed
  next
    case (Some p0)
    show ?thesis
      unfolding sql_sources_empty_def
    proof (intro allI impI)
      fix k p
      assume st: "store (cache (snd (process_query w s q page page_size))) k = Some p"
        and cl: "classify (key_query k) = ''sql''"
      show "sources p = []"
      proof (cases "k = ?key")
        case True
        with st have "sources p = sources p0"
          by (auto simp: process_query_hit [OF Some])
        moreover from reach_query.IH Some cl True have "sources p0 = []"
          by (auto simp: sql_sources_empty_def)
        ultimately show ?thesis by simp
      next
        case False
        with st have "store (cache s) k = Some p"
          by (auto simp: process_query_hit [OF Some])
        with reach_query.IH cl show ?thesis by (auto simp: sql_sources_empty_def)
      qed
    qed
  qed
qed

lemma process_query_sql_sources:
  assumes "reachable s" "classify q = ''sql''"
  shows "sources (fst (process_query w s q page ps)) = []"
proof (cases "store (cache s) (cache_key q page ps)")
  case None
  from assms(2) have "snd (snd (answer w (schema s) q page ps)) = []"
    by (rule answer_sql_sources)
  then show ?thesis
    by (auto simp: process_query_miss [OF None] Let_def split: prod.splits)
next
  case (Some p0)
  from reachable_sql_sources [OF assms(1)] Some assms(2) have "sources p0 = []"
    by (auto simp: sql_sources_empty_def key_query_cache_key)
  then show ?thesis by (simp add: process_query_hit [OF Some])
qed

text \<open>
  C6, as amended. For a query classified as hybrid whose SQL query and document search
  are run (the cache has no entry for the call) and both return, the payload holds the
  SQL results under "table" and the document results under "documents", and its sources
  are those of the document search; for a query classified as sql the sources of the
  payload are empty, in every state the service can reach.
\<close>

theorem process_query_hybrid:
  "(store (cache s) (cache_key q page ps) = None \<and> classify q = ''hybrid''
      \<and> run_sql_query w (schema s) q page ps = Inr t
      \<and> search_documents w q page ps = Inr (d, srcs)
    \<longrightarrow> query_type (fst (process_query w s q page ps)) = ''hybrid''
        \<and> results (fst (process_query w s q page ps)) = HybridResults t d
        \<and> sources (fst (process_query w s q page ps)) = srcs)
   \<and> (reachable s \<and> classify q = ''sql''
    \<longrightarrow> sources (fst (process_query w s q page ps)) = [])"
proof (intro conjI impI)
  assume h: "store (cache s) (cache_key q page ps) = None \<and> classify q = ''hybrid''
      \<and> run_sql_query w (schema s) q page ps = Inr t
      \<and> search_documents w q page ps = Inr (d, srcs)"
  then have miss: "store (cache s) (cache_key q page ps) = None" by simp
  from h have an: "answer w (schema s) q page ps = (''hybrid'', HybridResults t d, srcs)"
    by (simp add: answer_hybrid)
  show "query_type (fst (process_query w s q page ps)) = ''hybrid''"
    by (simp add: process_query_miss [OF miss] an Let_def)
  show "results (fst (process_query w s q page ps)) = HybridResults t d"
    by (simp add: process_query_miss [OF miss] an Let_def)
  show "sources (fst (process_query w s q page ps)) = srcs"
    by (simp add: process_query_miss [OF miss] an Let_def)
next
  assume "reachable s \<and> classify q = ''sql''"
  then show "sources (fst (process_query w s q page ps)) = []"
    by (simp add: process_query_sql_sources)
qed

text \<open>
  C6 as stated fails: a hybrid query on a schema without tables gets the error payload,
  with no "table" and no "documents".
\<close>

theorem process_query_hybrid_counterexample:
  "classify ''Show me resumes for employees'' = ''hybrid''
   \<and> results (fst (process_query demo_world (init_state empty_schema)
                      ''Show me resumes for employees'' 1 50))
       = ErrorResult ''Could not determine main table. Ensure database has an employee-like table.''"
  by code_simp

theorem process_query_hybrid_witness:
  "store (cache (init_state demo_schema)) (cache_key ''Show me resumes for employees'' 1 50) = None
   \<and> classify ''Show me resumes for employees'' = ''hybrid''
   \<and> run_sql_query demo_world (schema (init_state demo_schema)) ''Show me resumes for employees'' 1 50
       = Inr \<lparr>sr_columns = [''count''], sr_rows = demo_rows, sr_page = 1, sr_page_size = 50\<rparr>
   \<and> search_documents demo_world ''Show me resumes for employees'' 1 50
       = Inr ([\<lparr>dr_text = ''Alice: Python, SQL'',
                 dr_metadata = [(''filename'', PStr ''alice.pdf''), (''chunk'', PInt 0)]\<rparr>],
              [[(''filename'', PStr ''alice.pdf''), (''chunk'', PInt 0), (''score'', PNone)]])
   \<and> results (fst (process_query demo_world (init_state demo_schema)
                      ''Show me resumes for employees'' 1 50))
       = HybridResults \<lparr>sr_columns = [''count''], sr_rows = demo_rows, sr_page = 1, sr_page_size = 50\<rparr>
           [\<lparr>dr_text = ''Alice: Python, SQL'',
             dr_metadata = [(''filename'', PStr ''alice.pdf''), (''chunk'', PInt 0)]\<rparr>]
   \<and> sources (fst (process_query demo_world (init_state demo_schema)
                      ''Show me resumes for employees'' 1 50))
       = [[(''filename'', PStr ''alice.pdf''), (''chunk'', PInt 0), (''score'', PNone)]]
   \<and> reachable (init_state demo_schema)
   \<and> classify ''Alice'' = ''sql''
   \<and> sources (fst (process_query demo_world (init_state demo_schema) ''Alice'' 1 50)) = []"
proof -
  let ?q = "''Show me resumes for employees''"
  let ?s = "init_state demo_schema"
  have m: "store (cache ?s) (cache_key ?q 1 50) = None" by (simp add: init_state_def)
  have c: "classify ?q = ''hybrid''" by code_simp
  have r: "run_sql_query demo_world (schema ?s) ?q 1 50
       = Inr \<lparr>sr_columns = [''count''], sr_rows = demo_rows, sr_page = 1, sr_page_size = 50\<rparr>"
    by code_simp
  have d: "search_documents demo_world ?q 1 50
       = Inr ([\<lparr>dr_text = ''Alice: Python, SQL'',
                 dr_metadata = [(''filename'', PStr ''alice.pdf''), (''chunk'', PInt 0)]\<rparr>],
              [[(''filename'', PStr ''alice.pdf''), (''chunk'', PInt 0), (''score'', PNone)]])"
    by code_simp
  have m2: "reachable ?s" by (rule reach_init)
  have c2: "classify ''Alice'' = ''sql''" by code_simp
  note T = process_query_hybrid [of ?s ?q 1 50 demo_world, THEN conjunct1, rule_format,
             OF conjI [OF m conjI [OF c conjI [OF r d]]]]
  note U = process_query_hybrid [of ?s "''Alice''" 1 50 demo_world, THEN conjunct2, rule_format,
             OF conjI [OF m2 c2]]
  from m c r d T [THEN conjunct2, THEN conjunct1] T [THEN conjunct2, THEN conjunct2] m2 c2 U
  show ?thesis by (intro conjI)
qed

lemma reachable_history: "reachable s \<Longrightarrow> length (query_history s) \<le> 50"
proof (induction rule: reachable.induct)
  case (reach_init sc)
  then show ?case by (simp add: init_state_def)
next
  case (reach_connect s sc)
  then show ?case by simp
next
  case (reach_expire s A)
  then show ?case by simp
next
  case (reach_jobs s js)
  then show ?case by simp
next
  case (reach_query s w q page page_size)
  show ?case
  proof (cases "store (cache s) (cache_key q page page_size)")
    case None
    have "length (query_history s) - (length (query_history s) - 49) \<le> 49" by arith
    with None show ?thesis
      by (simp add: process_query_miss Let_def split: prod.splits)
  next
    case (Some p)
    with reach_query.IH show ?thesis by (simp add: process_query_hit)
  qed
qed

text \<open>
  C10. In every state the service can reach, after a call of process_query the history
  holds at most 50 entries; on a cache miss its last entry records the query string and
  the query type of the payload; on a cache hit the history is unchanged.
\<close>

theorem query_history_bounded:
  assumes "reachable s"
  shows "length (query_history (snd (process_query w s q page ps))) \<le> 50
       \<and> (store (cache s) (cache_key q page ps) = None \<longrightarrow>
            query_history (snd (process_query w s q page ps)) \<noteq> []
          \<and> last (query_history (snd (process_query w s q page ps)))
              = \<lparr>he_query = q, he_type = query_type (fst (process_query w s q page ps)),
                  he_ts = clock w\<rparr>)
       \<and> (store (cache s) (cache_key q page ps) \<noteq> None \<longrightarrow>
            query_history (snd (process_query w s q page ps)) = query_history s)"
proof -
  have a: "length (query_history (snd (process_query w s q page ps))) \<le> 50"
    by (rule reachable_history [OF reach_query [OF assms]])
  have b: "query_history (snd (process_query w s q page ps)) \<noteq> []
          \<and> last (query_history (snd (process_query w s q page ps)))
              = \<lparr>he_query = q, he_type = query_type (fst (process_query w s q page ps)),
                  he_ts = clock w\<rparr>"
    if miss: "store (cache s) (cache_key q page ps) = None"
    by (simp add: process_query_miss [OF miss] Let_def split: prod.splits)
  have c: "query_history (snd (process_query w s q page ps)) = query_history s"
    if "store (cache s) (cache_key q page ps) \<noteq> None"
    using that by (auto simp: process_query_hit)
  from a b c show ?thesis by blast
qed

theorem query_history_bounded_witness:
  "reachable (init_state demo_schema)
   \<and> length (query_history (snd (process_query demo_world (init_state demo_schema) ''Alice'' 1 50))) \<le> 50
   \<and> store (cache (init_state demo_schema)) (cache_key ''Alice'' 1 50) = None
   \<and> last (query_history (snd (process_query demo_world (init_state demo_schema) ''Alice'' 1 50)))
       = \<lparr>he_query = ''Alice'', he_type = ''sql'', he_ts = 2\<rparr>
   \<and> reachable (snd (process_query demo_world (init_state demo_schema) ''Alice'' 1 50))
   \<and> store (cache (snd (process_query demo_world (init_state demo_schema) ''Alice'' 1 50)))
        (cache_key ''Alice'' 1 50) \<noteq> None
   \<and> query_history (snd (process_query broken_world
         (snd (process_query demo_world (init_state demo_schema) ''Alice'' 1 50)) ''Alice'' 1 50))
       = query_history (snd (process_query demo_world (init_state demo_schema) ''Alice'' 1 50))"
proof -
  let ?s = "init_state demo_schema"
  let ?s1 = "snd (process_query demo_world ?s ''Alice'' 1 50)"
  have r0: "reachable ?s" by (rule reach_init)
  have r1: "reachable ?s1" by (rule reach_query [OF r0])
  have m: "store (cache ?s) (cache_key ''Alice'' 1 50) = None" by (simp add: init_state_def)
  have h: "store (cache ?s1) (cache_key ''Alice'' 1 50) \<noteq> None"
    by (simp add: process_query_miss_stored [OF m])
  have t: "query_type (fst (process_query demo_world ?s ''Alice'' 1 50)) = ''sql''" by code_simp
  have k: "clock demo_world = 2" by (simp add: demo_world_def)
  note T = query_history_bounded [OF r0, of demo_world "''Alice''" 1 50]
  note U = query_history_bounded [OF r1, of broken_world "''Alice''" 1 50]
  from T [THEN conjunct2, THEN conjunct1, rule_format, OF m, THEN conjunct2]
  have l: "last (query_history ?s1) = \<lparr>he_query = ''Alice'', he_type = ''sql'', he_ts = 2\<rparr>"
    by (simp only: t k)
  from r0 T [THEN conjunct1] m l r1 h U [THEN conjunct2, THEN conjunct2, rule_format, OF h]
  show ?thesis by (intro conjI)
qed

section \<open>Properties of the generated statement\<close>

lemma fold_token_step_filters:
  "fst (fold (token_step n d) toks (lf, ps)) = lf @ concat (map (like_filters_of n d) toks)"
  by (induction toks arbitrary: lf ps)
     (auto simp: token_step_def like_filters_of_def Let_def split: prod.splits)

lemma token_step_keys:
  "fst ` set (snd (token_step n d t st))
     = fst ` set (snd st) \<union> {t} \<union> (if truthy d then {t @ ''_d''} else {})"
  by (cases st) (auto simp: token_step_def Let_def dom_update)

lemma fold_token_step_keys:
  "fst ` set (snd (fold (token_step n d) toks st))
     = fst ` set (snd st) \<union> set toks \<union> (if truthy d then (\<lambda>t. t @ ''_d'') ` set toks else {})"
proof (induction toks arbitrary: st)
  case Nil
  then show ?case by simp
next
  case (Cons t toks)
  have "fst ` set (snd (fold (token_step n d) (t # toks) st))
          = fst ` set (snd (token_step n d t st)) \<union> set toks
              \<union> (if truthy d then (\<lambda>t. t @ ''_d'') ` set toks else {})"
    using Cons.IH [of "token_step n d t st"] by simp
  also have "\<dots> = fst ` set (snd st) \<union> set (t # toks)
              \<union> (if truthy d then (\<lambda>t. t @ ''_d'') ` set (t # toks) else {})"
    unfolding token_step_keys by auto
  finally show ?case .
qed

lemma set_update_subset: "set (AList.update k v al) \<subseteq> insert (k, v) (set al)"
  by (induction al) auto

lemma fold_token_step_values:
  "(k, v) \<in> set (snd (fold (token_step n d) toks (lf, ps))) \<Longrightarrow>
     (k, v) \<in> set ps \<or> (\<exists>t \<in> set toks. \<exists>t' \<in> set toks. (k = t \<or> k = t @ ''_d'') \<and> v = ''%'' @ t' @ ''%'')"
proof (induction toks arbitrary: lf ps)
  case Nil
  then show ?case by simp
next
  case (Cons t toks)
  let ?st = "token_step n d t (lf, ps)"
  have st: "fold (token_step n d) (t # toks) (lf, ps) = fold (token_step n d) toks (fst ?st, snd ?st)"
    by simp
  from Cons.prems [unfolded st] Cons.IH [of "fst ?st" "snd ?st"]
  have "(k, v) \<in> set (snd ?st)
        \<or> (\<exists>t \<in> set toks. \<exists>t' \<in> set toks. (k = t \<or> k = t @ ''_d'') \<and> v = ''%'' @ t' @ ''%'')"
    by blast
  moreover have "set (snd ?st) \<subseteq> insert (t, ''%'' @ t @ ''%'') (insert (t @ ''_d'', ''%'' @ t @ ''%'') (set ps))"
    using set_update_subset [of t "''%'' @ t @ ''%''" ps]
          set_update_subset [of t "''%'' @ t @ ''%''" "AList.update (t @ ''_d'') (''%'' @ t @ ''%'') ps"]
          set_update_subset [of "t @ ''_d''" "''%'' @ t @ ''%''" ps]
    by (auto simp: token_step_def Let_def split: if_splits)
  ultimately show ?case by auto
qed

lemma lower_char_not_upper:
  "\<not> (65 \<le> (of_char (lower_char c) :: nat) \<and> (of_char (lower_char c) :: nat) \<le> 90)"
  by (auto simp: lower_char_def Let_def)

lemma word_char_lower: "is_word_char (lower_char c) \<Longrightarrow> bind_char (lower_char c)"
  using lower_char_not_upper [of c] by (auto simp: is_word_char_def bind_char_def Let_def)

lemma findall_words_chars:
  "\<forall>c \<in> set acc. P c \<Longrightarrow> \<forall>c \<in> set cs. is_word_char c \<longrightarrow> P c \<Longrightarrow>
     \<forall>t \<in> set (findall_words acc cs). t \<noteq> [] \<and> (\<forall>c \<in> set t. P c)"
proof (induction cs arbitrary: acc)
  case Nil
  then show ?case by simp
next
  case (Cons a cs)
  have cs: "\<forall>c \<in> set cs. is_word_char c \<longrightarrow> P c" using Cons.prems(2) by simp
  show ?case
  proof (cases "is_word_char a")
    case True
    with Cons.prems have "\<forall>c \<in> set (a # acc). P c" by simp
    from Cons.IH [OF this cs] True show ?thesis by simp
  next
    case False
    have "\<forall>c \<in> set ([]::string). P c" by simp
    from Cons.IH [OF this cs] False Cons.prems(1) show ?thesis by auto
  qed
qed

lemma query_tokens_lower:
  "\<forall>t \<in> set (query_tokens (lower q)). t \<noteq> [] \<and> (\<forall>c \<in> set t. bind_char c)"
proof -
  have "\<forall>c \<in> set (lower q). is_word_char c \<longrightarrow> bind_char c"
    by (auto simp: lower_def word_char_lower)
  from findall_words_chars [of "[]" bind_char, OF _ this]
  show ?thesis by (auto simp: query_tokens_def)
qed

lemma main_table_query: "fst (map_natural_language_to_schema q sc) = main_table sc"
  by (simp add: main_table_def map_natural_language_to_schema_def Let_def)

lemma sql_statement_Inr_iff:
  "sql_statement sc q page ps = Inr (sql, params, cols) \<longleftrightarrow>
     (\<exists>table. main_table sc = Some table \<and> table \<noteq> [] \<and> map_of (tables sc) table = Some cols
        \<and> (truthy (h_name (hints_of sc table)) \<or> cols \<noteq> [])
        \<and> sql = optimize_sql_query
                  (fst (sql_template table (name_col_of sc table cols)
                          (h_salary (hints_of sc table)) (h_department (hints_of sc table))
                          (h_date (hints_of sc table)) (lower q))) page ps
        \<and> params = snd (sql_template table (name_col_of sc table cols)
                          (h_salary (hints_of sc table)) (h_department (hints_of sc table))
                          (h_date (hints_of sc table)) (lower q)))"
proof -
  obtain t_opt cm where mp: "map_natural_language_to_schema q sc = (t_opt, cm)"
    by (cases "map_natural_language_to_schema q sc")
  then have mt: "main_table sc = t_opt"
    using main_table_query [of q sc] by simp
  show ?thesis
  proof (cases t_opt)
    case None
    with mp mt show ?thesis
      by (simp add: sql_statement_def truthy_def)
  next
    case (Some table)
    show ?thesis
    proof (cases "table = []")
      case True
      with mp mt Some show ?thesis
        by (simp add: sql_statement_def truthy_def)
    next
      case False
      show ?thesis
      proof (cases "map_of (tables sc) table")
        case None
        with mp mt Some False show ?thesis
          by (simp add: sql_statement_def truthy_def fmt_def Let_def)
      next
        case (Some cs)
        with mp mt \<open>t_opt = Some table\<close> False show ?thesis
          by (auto simp: sql_statement_def truthy_def fmt_def Let_def hints_of_def
                name_col_of_def split: prod.splits option.splits)
      qed
    qed
  qed
qed

lemma sql_template_count:
  assumes "sublist ''how many'' q \<or> (sublist ''count'' q \<and> sublist ''employees'' q)"
  shows "sql_template table name_col salary_col dept_col date_col q
           = (''SELECT COUNT(*) as count FROM '' @ table, [])"
  using assms by (simp add: sql_template_def)

lemma optimize_sql_query_cases:
  "(\<not> sublist '' limit '' (lower x) \<longrightarrow>
      optimize_sql_query x page ps
        = x @ '' LIMIT '' @ show_int (max 1 (min 200 ps))
            @ '' OFFSET '' @ show_int ((max 1 page - 1) * max 1 (min 200 ps)))
   \<and> (sublist '' limit '' (lower x) \<longrightarrow> optimize_sql_query x page ps = x)"
  by (simp add: optimize_sql_query_def Let_def)

text \<open>
  C4, as amended. For every query whose lowercased text contains "how many", or both
  "count" and "employees", the statement generated is SELECT COUNT(*) as count FROM
  <main table> passed through optimize_sql_query, with no bound parameters: it gets the
  suffix " LIMIT s OFFSET o" when its lowercased text does not contain " limit ", and
  it stays as it is, without a suffix, when a table name makes it contain " limit ".
  The branch chain takes this branch whatever the later conditions (average salary,
  hire date, tokens) say, and the statement is generated whenever the main table is in
  the schema with at least one column.
\<close>

theorem count_branch_first:
  assumes "sublist ''how many'' (lower q)
           \<or> (sublist ''count'' (lower q) \<and> sublist ''employees'' (lower q))"
  shows "(\<forall>sql params cols. sql_statement sc q page ps = Inr (sql, params, cols) \<longrightarrow>
            (\<exists>table. fst (map_natural_language_to_schema q sc) = Some table
               \<and> sql = optimize_sql_query (''SELECT COUNT(*) as count FROM '' @ table) page ps
               \<and> (\<not> sublist '' limit '' (lower (''SELECT COUNT(*) as count FROM '' @ table)) \<longrightarrow>
                    sql = ''SELECT COUNT(*) as count FROM '' @ table
                            @ '' LIMIT '' @ show_int (max 1 (min 200 ps))
                            @ '' OFFSET '' @ show_int ((max 1 page - 1) * max 1 (min 200 ps)))
               \<and> (sublist '' limit '' (lower (''SELECT COUNT(*) as count FROM '' @ table)) \<longrightarrow>
                    sql = ''SELECT COUNT(*) as count FROM '' @ table)
               \<and> params = []))
       \<and> (\<forall>table cols. fst (map_natural_language_to_schema q sc) = Some table \<and> table \<noteq> []
               \<and> map_of (tables sc) table = Some cols \<and> cols \<noteq> [] \<longrightarrow>
            sql_statement sc q page ps
              = Inr (optimize_sql_query (''SELECT COUNT(*) as count FROM '' @ table) page ps,
                     [], cols))
       \<and> sql_template table name_col salary_col dept_col date_col (lower q)
            = (''SELECT COUNT(*) as count FROM '' @ table, [])"
proof -
  note c = sql_template_count [OF assms]
  have a: "\<exists>table. fst (map_natural_language_to_schema q sc) = Some table
               \<and> sql = optimize_sql_query (''SELECT COUNT(*) as count FROM '' @ table) page ps
               \<and> (\<not> sublist '' limit '' (lower (''SELECT COUNT(*) as count FROM '' @ table)) \<longrightarrow>
                    sql = ''SELECT COUNT(*) as count FROM '' @ table
                            @ '' LIMIT '' @ show_int (max 1 (min 200 ps))
                            @ '' OFFSET '' @ show_int ((max 1 page - 1) * max 1 (min 200 ps)))
               \<and> (sublist '' limit '' (lower (''SELECT COUNT(*) as count FROM '' @ table)) \<longrightarrow>
                    sql = ''SELECT COUNT(*) as count FROM '' @ table)
               \<and> params = []"
    if st: "sql_statement sc q page ps = Inr (sql, params, cols)" for sql params cols
  proof -
    from st obtain table where
      t: "fst (map_natural_language_to_schema q sc) = Some table"
      and s: "sql = optimize_sql_query (''SELECT COUNT(*) as count FROM '' @ table) page ps"
      and p: "params = []"
      unfolding sql_statement_Inr_iff c main_table_query by auto
    have "(\<not> sublist '' limit '' (lower (''SELECT COUNT(*) as count FROM '' @ table)) \<longrightarrow>
                    sql = ''SELECT COUNT(*) as count FROM '' @ table
                            @ '' LIMIT '' @ show_int (max 1 (min 200 ps))
                            @ '' OFFSET '' @ show_int ((max 1 page - 1) * max 1 (min 200 ps)))
               \<and> (sublist '' limit '' (lower (''SELECT COUNT(*) as count FROM '' @ table)) \<longrightarrow>
                    sql = ''SELECT COUNT(*) as count FROM '' @ table)"
      unfolding s
      using optimize_sql_query_cases [of "''SELECT COUNT(*) as count FROM '' @ table" page ps]
      by simp
    with t s p show ?thesis by blast
  qed
  have b: "sql_statement sc q page ps
              = Inr (optimize_sql_query (''SELECT COUNT(*) as count FROM '' @ table) page ps,
                     [], cols)"
    if "fst (map_natural_language_to_schema q sc) = Some table \<and> table \<noteq> []
               \<and> map_of (tables sc) table = Some cols \<and> cols \<noteq> []" for table cols
    using that unfolding sql_statement_Inr_iff c main_table_query by auto
  from a b c show ?thesis by blast
qed

text \<open>
  C4 as stated fails: when the name of the main table puts " limit " into the
  statement, optimize_sql_query adds no pagination suffix.
\<close>

theorem count_branch_no_suffix_counterexample:
  "sublist ''how many'' (lower ''How many orders are there?'')
   \<and> sql_statement limit_schema ''How many orders are there?'' 1 50
        = Inr (''SELECT COUNT(*) as count FROM Limit Orders'', [], [''id'', ''amount''])"
  by code_simp

theorem count_branch_first_witness:
  "(sublist ''how many'' (lower ''How many employees with an average salary were hired in 2023?'')
      \<or> (sublist ''count'' (lower ''How many employees with an average salary were hired in 2023?'')
          \<and> sublist ''employees'' (lower ''How many employees with an average salary were hired in 2023?'')))
   \<and> sublist ''average'' (lower ''How many employees with an average salary were hired in 2023?'')
   \<and> sublist ''salary'' (lower ''How many employees with an average salary were hired in 2023?'')
   \<and> any_in date_keywords (lower ''How many employees with an average salary were hired in 2023?'')
   \<and> fst (map_natural_language_to_schema
             ''How many employees with an average salary were hired in 2023?'' demo_schema)
        = Some ''employees''
   \<and> \<not> sublist '' limit '' (lower (''SELECT COUNT(*) as count FROM '' @ ''employees''))
   \<and> sql_statement demo_schema ''How many employees with an average salary were hired in 2023?'' 1 50
        = Inr (''SELECT COUNT(*) as count FROM employees LIMIT 50 OFFSET 0'', [],
               [''emp_id'', ''full_name'', ''dept_id'', ''position'', ''annual_salary'',
                ''join_date'', ''office_location''])
   \<and> (sublist ''how many'' (lower ''How many orders are there?'')
      \<or> (sublist ''count'' (lower ''How many orders are there?'')
          \<and> sublist ''employees'' (lower ''How many orders are there?'')))
   \<and> fst (map_natural_language_to_schema ''How many orders are there?'' limit_schema)
        = Some ''Limit Orders''
   \<and> sublist '' limit '' (lower (''SELECT COUNT(*) as count FROM '' @ ''Limit Orders''))
   \<and> sql_statement limit_schema ''How many orders are there?'' 3 20
        = Inr (''SELECT COUNT(*) as count FROM Limit Orders'', [], [''id'', ''amount''])"
proof -
  let ?q = "''How many employees with an average salary were hired in 2023?''"
  let ?cols = "[''emp_id'', ''full_name'', ''dept_id'', ''position'', ''annual_salary'',
                ''join_date'', ''office_location'']"
  let ?q2 = "''How many orders are there?''"
  have h: "sublist ''how many'' (lower ?q)
      \<or> (sublist ''count'' (lower ?q) \<and> sublist ''employees'' (lower ?q))"
    by code_simp
  have o: "sublist ''average'' (lower ?q)" "sublist ''salary'' (lower ?q)"
          "any_in date_keywords (lower ?q)"
    by code_simp+
  have t: "fst (map_natural_language_to_schema ?q demo_schema) = Some ''employees''"
    by code_simp
  have p: "fst (map_natural_language_to_schema ?q demo_schema) = Some ''employees''
           \<and> ''employees'' \<noteq> [] \<and> map_of (tables demo_schema) ''employees'' = Some ?cols
           \<and> ?cols \<noteq> []"
    by code_simp
  have nl: "\<not> sublist '' limit '' (lower (''SELECT COUNT(*) as count FROM '' @ ''employees''))"
    by code_simp
  have sh: "show_int 50 = ''50''" "show_int 0 = ''0''"
    by code_simp+
  note T = count_branch_first [OF h, of demo_schema 1 50]
  note r0 = T [THEN conjunct2, THEN conjunct1, rule_format, OF p]
  from T [THEN conjunct1, rule_format, OF r0] t nl
  have "optimize_sql_query (''SELECT COUNT(*) as count FROM '' @ ''employees'') 1 50
          = ''SELECT COUNT(*) as count FROM '' @ ''employees''
              @ '' LIMIT '' @ show_int (max 1 (min 200 50))
              @ '' OFFSET '' @ show_int ((max 1 1 - 1) * max 1 (min 200 50))"
    by auto
  then have e: "optimize_sql_query (''SELECT COUNT(*) as count FROM '' @ ''employees'') 1 50
             = ''SELECT COUNT(*) as count FROM employees LIMIT 50 OFFSET 0''"
    by (simp add: sh)
  have r: "sql_statement demo_schema ?q 1 50
        = Inr (''SELECT COUNT(*) as count FROM employees LIMIT 50 OFFSET 0'', [], ?cols)"
    using r0 unfolding e .
  have h2: "sublist ''how many'' (lower ?q2)
      \<or> (sublist ''count'' (lower ?q2) \<and> sublist ''employees'' (lower ?q2))"
    by code_simp
  have t2: "fst (map_natural_language_to_schema ?q2 limit_schema) = Some ''Limit Orders''"
    by code_simp
  have p2: "fst (map_natural_language_to_schema ?q2 limit_schema) = Some ''Limit Orders''
           \<and> ''Limit Orders'' \<noteq> []
           \<and> map_of (tables limit_schema) ''Limit Orders'' = Some [''id'', ''amount'']
           \<and> [''id'', ''amount''] \<noteq> []"
    by code_simp
  have l: "sublist '' limit '' (lower (''SELECT COUNT(*) as count FROM '' @ ''Limit Orders''))"
    by code_simp
  note U = count_branch_first [OF h2, of limit_schema 3 20]
  note u0 = U [THEN conjunct2, THEN conjunct1, rule_format, OF p2]
  from U [THEN conjunct1, rule_format, OF u0] t2 l
  have e2: "optimize_sql_query (''SELECT COUNT(*) as count FROM '' @ ''Limit Orders'') 3 20
          = ''SELECT COUNT(*) as count FROM '' @ ''Limit Orders''"
    by auto
  have r2: "sql_statement limit_schema ?q2 3 20
        = Inr (''SELECT COUNT(*) as count FROM Limit Orders'', [], [''id'', ''amount''])"
    using u0 unfolding e2 by simp
  from h o t nl r h2 t2 l r2 show ?thesis by (intro conjI)
qed

lemma join_concat_nonempty: "xs \<noteq> [] \<Longrightarrow> concat (map (like_filters_of n d) xs) \<noteq> []"
  by (cases xs) (simp_all add: like_filters_of_def)

lemma sql_template_generic:
  assumes "\<not> (sublist ''how many'' q \<or> (sublist ''count'' q \<and> sublist ''employees'' q))"
    and "\<not> (sublist ''average'' q
              \<and> (sublist ''salary'' q \<or> sublist ''pay'' q \<or> sublist ''compensation'' q)
              \<and> truthy dept_col)"
    and "\<not> any_in date_keywords q"
  shows "sql_template table name_col salary_col dept_col date_col q
           = (if query_tokens q \<noteq> []
              then (''SELECT * FROM '' @ table @ '' WHERE ''
                      @ join '' OR '' (concat (map (like_filters_of name_col dept_col) (query_tokens q))),
                    snd (fold (token_step name_col dept_col) (query_tokens q) ([], [])))
              else (''SELECT * FROM '' @ table, []))"
proof -
  have f: "fst (fold (token_step name_col dept_col) (query_tokens q) ([], []))
             = concat (map (like_filters_of name_col dept_col) (query_tokens q))"
    using fold_token_step_filters [of name_col dept_col "query_tokens q" "[]" "[]"] by simp
  have c1: "(sublist ''how many'' q \<or> (sublist ''count'' q \<and> sublist ''employees'' q)) = False"
    using assms(1) by simp
  have c2: "(sublist ''average'' q
              \<and> (sublist ''salary'' q \<or> sublist ''pay'' q \<or> sublist ''compensation'' q)
              \<and> truthy dept_col) = False"
    using assms(2) by simp
  have c3: "any_in date_keywords q = False"
    using assms(3) by simp
  have t: "sql_template table name_col salary_col dept_col date_col q
             = (if concat (map (like_filters_of name_col dept_col) (query_tokens q)) \<noteq> []
                then (''SELECT * FROM '' @ table @ '' WHERE ''
                        @ join '' OR '' (concat (map (like_filters_of name_col dept_col) (query_tokens q))),
                      snd (fold (token_step name_col dept_col) (query_tokens q) ([], [])))
                else (''SELECT * FROM '' @ table,
                      snd (fold (token_step name_col dept_col) (query_tokens q) ([], []))))"
    unfolding sql_template_def c1 c2 c3 if_False Let_def case_prod_beta f ..
  show ?thesis
  proof (cases "query_tokens q = []")
    case True
    then show ?thesis unfolding t by simp
  next
    case False
    have ne: "concat (map (like_filters_of name_col dept_col) (query_tokens q)) \<noteq> []"
      by (rule join_concat_nonempty [OF False])
    from False ne show ?thesis unfolding t by (simp only: if_True simp_thms)
  qed
qed

lemma sql_template_cases:
  "(fst (sql_template table name_col (h_salary hints) (h_department hints) (h_date hints) q)
       \<in> schema_only_sql table hints
     \<and> snd (sql_template table name_col (h_salary hints) (h_department hints) (h_date hints) q) = [])
   \<or> (query_tokens q \<noteq> []
       \<and> sql_template table name_col (h_salary hints) (h_department hints) (h_date hints) q
           = (''SELECT * FROM '' @ table @ '' WHERE ''
                @ join '' OR '' (concat (map (like_filters_of name_col (h_department hints))
                                          (query_tokens q))),
              snd (fold (token_step name_col (h_department hints)) (query_tokens q) ([], []))))"
proof -
  let ?T = "sql_template table name_col (h_salary hints) (h_department hints) (h_date hints) q"
  consider (count) "sublist ''how many'' q \<or> (sublist ''count'' q \<and> sublist ''employees'' q)"
    | (avg) "\<not> (sublist ''how many'' q \<or> (sublist ''count'' q \<and> sublist ''employees'' q))"
        "sublist ''average'' q
              \<and> (sublist ''salary'' q \<or> sublist ''pay'' q \<or> sublist ''compensation'' q)
              \<and> truthy (h_department hints)"
    | (date) "\<not> (sublist ''how many'' q \<or> (sublist ''count'' q \<and> sublist ''employees'' q))"
        "\<not> (sublist ''average'' q
              \<and> (sublist ''salary'' q \<or> sublist ''pay'' q \<or> sublist ''compensation'' q)
              \<and> truthy (h_department hints))"
        "any_in date_keywords q"
    | (generic) "\<not> (sublist ''how many'' q \<or> (sublist ''count'' q \<and> sublist ''employees'' q))"
        "\<not> (sublist ''average'' q
              \<and> (sublist ''salary'' q \<or> sublist ''pay'' q \<or> sublist ''compensation'' q)
              \<and> truthy (h_department hints))"
        "\<not> any_in date_keywords q"
    by blast
  then show ?thesis
  proof cases
    case count
    then have "?T = (''SELECT COUNT(*) as count FROM '' @ table, [])"
      by (rule sql_template_count)
    then show ?thesis by (simp add: schema_only_sql_def)
  next
    case avg
    from avg(1) have c1: "(sublist ''how many'' q \<or> (sublist ''count'' q \<and> sublist ''employees'' q)) = False"
      by simp
    from avg(2) have c2: "(sublist ''average'' q
              \<and> (sublist ''salary'' q \<or> sublist ''pay'' q \<or> sublist ''compensation'' q)
              \<and> truthy (h_department hints)) = True"
      by simp
    have "?T = (''SELECT '' @ fmt (h_department hints) @ '' as department, AVG(''
         @ fmt (h_salary hints) @ '') as average_salary FROM '' @ table
         @ '' GROUP BY '' @ fmt (h_department hints) @ '' ORDER BY average_salary DESC'', [])"
      unfolding sql_template_def c1 c2 if_False if_True ..
    then show ?thesis by (simp add: schema_only_sql_def)
  next
    case date
    from date(1) have d1: "(sublist ''how many'' q \<or> (sublist ''count'' q \<and> sublist ''employees'' q)) = False"
      by simp
    from date(2) have d2: "(sublist ''average'' q
              \<and> (sublist ''salary'' q \<or> sublist ''pay'' q \<or> sublist ''compensation'' q)
              \<and> truthy (h_department hints)) = False"
      by simp
    from date(3) have d3: "any_in date_keywords q = True" by simp
    have "?T = (if truthy (h_date hints)
            then (''SELECT * FROM '' @ table @ '' WHERE strftime('' @ [CHR 0x27] @ ''%Y''
                    @ [CHR 0x27] @ '', '' @ fmt (h_date hints) @ '') = strftime('' @ [CHR 0x27]
                    @ ''%Y'' @ [CHR 0x27] @ '','' @ [CHR 0x27] @ ''now'' @ [CHR 0x27]
                    @ '') ORDER BY '' @ fmt (h_date hints) @ '' DESC'', [])
            else (''SELECT * FROM '' @ table @ '' LIMIT 100'', []))"
      unfolding sql_template_def d1 d2 d3 if_False if_True ..
    then show ?thesis by (simp add: schema_only_sql_def)
  next
    case generic
    note g = sql_template_generic [OF generic, of table name_col "h_salary hints" "h_date hints"]
    show ?thesis
    proof (cases "query_tokens q = []")
      case True
      with g have "?T = (''SELECT * FROM '' @ table, [])" by simp
      then show ?thesis by (simp add: schema_only_sql_def)
    next
      case False
      with g show ?thesis by simp
    qed
  qed
qed

text \<open>
  C1, as amended. Every statement built for a query is optimize_sql_query applied to
  either a statement made of names of the schema alone, with no bound parameters, or
  SELECT * FROM <table> WHERE followed by LIKE filters joined by OR. In the filters the
  only text that comes from the query is the name of a bind parameter, :tok or :tok_d,
  where tok is one of the tokens of the lowercased query and is made of lowercase ASCII
  letters and underscores only; every such name is bound in params, and every value of params is a
  token between two percent signs. The page numbers enter the text as the two integers
  of the LIMIT and OFFSET suffix.
\<close>

theorem sql_statement_parametrized:
  assumes "sql_statement sc q page ps = Inr (sql, params, cols)"
  shows "\<exists>table base toks.
           fst (map_natural_language_to_schema q sc) = Some table
         \<and> sql = optimize_sql_query base page ps
         \<and> set toks \<subseteq> set (query_tokens (lower q))
         \<and> (\<forall>t \<in> set toks. t \<noteq> [] \<and> (\<forall>c \<in> set t. bind_char c))
         \<and> (\<forall>(k, v) \<in> set params.
               \<exists>t \<in> set toks. \<exists>t' \<in> set toks. (k = t \<or> k = t @ ''_d'') \<and> v = ''%'' @ t' @ ''%'')
         \<and> (base \<in> schema_only_sql table (hints_of sc table) \<and> params = []
             \<or> toks \<noteq> []
               \<and> base = ''SELECT * FROM '' @ table @ '' WHERE ''
                          @ join '' OR ''
                              (concat (map (like_filters_of (name_col_of sc table cols)
                                              (h_department (hints_of sc table))) toks))
               \<and> (\<forall>t \<in> set toks. t \<in> fst ` set params
                      \<and> (truthy (h_department (hints_of sc table))
                           \<longrightarrow> t @ ''_d'' \<in> fst ` set params)))"
proof -
  from assms obtain table where
    mt: "main_table sc = Some table"
    and sql: "sql = optimize_sql_query
                  (fst (sql_template table (name_col_of sc table cols)
                          (h_salary (hints_of sc table)) (h_department (hints_of sc table))
                          (h_date (hints_of sc table)) (lower q))) page ps"
    and params: "params = snd (sql_template table (name_col_of sc table cols)
                          (h_salary (hints_of sc table)) (h_department (hints_of sc table))
                          (h_date (hints_of sc table)) (lower q))"
    unfolding sql_statement_Inr_iff by blast
  let ?n = "name_col_of sc table cols"
  let ?h = "hints_of sc table"
  let ?T = "sql_template table ?n (h_salary ?h) (h_department ?h) (h_date ?h) (lower q)"
  have m: "fst (map_natural_language_to_schema q sc) = Some table"
    using mt by (simp add: main_table_query)
  from sql_template_cases [of table ?n ?h "lower q"]
  show ?thesis
  proof
    assume a: "fst ?T \<in> schema_only_sql table ?h \<and> snd ?T = []"
    have "fst (map_natural_language_to_schema q sc) = Some table
         \<and> sql = optimize_sql_query (fst ?T) page ps
         \<and> set ([]::string list) \<subseteq> set (query_tokens (lower q))
         \<and> (\<forall>t \<in> set ([]::string list). t \<noteq> [] \<and> (\<forall>c \<in> set t. bind_char c))
         \<and> (\<forall>(k, v) \<in> set params.
               \<exists>t \<in> set ([]::string list). \<exists>t' \<in> set ([]::string list).
                  (k = t \<or> k = t @ ''_d'') \<and> v = ''%'' @ t' @ ''%'')
         \<and> (fst ?T \<in> schema_only_sql table ?h \<and> params = []
             \<or> ([]::string list) \<noteq> []
               \<and> fst ?T = ''SELECT * FROM '' @ table @ '' WHERE ''
                          @ join '' OR '' (concat (map (like_filters_of ?n (h_department ?h)) []))
               \<and> (\<forall>t \<in> set ([]::string list). t \<in> fst ` set params
                      \<and> (truthy (h_department ?h) \<longrightarrow> t @ ''_d'' \<in> fst ` set params)))"
      using m sql params a by simp
    then show ?thesis by blast
  next
    let ?toks = "query_tokens (lower q)"
    assume b: "?toks \<noteq> []
       \<and> ?T = (''SELECT * FROM '' @ table @ '' WHERE ''
                @ join '' OR '' (concat (map (like_filters_of ?n (h_department ?h)) ?toks)),
              snd (fold (token_step ?n (h_department ?h)) ?toks ([], [])))"
    then have p: "params = snd (fold (token_step ?n (h_department ?h)) ?toks ([], []))"
      and base: "fst ?T = ''SELECT * FROM '' @ table @ '' WHERE ''
                @ join '' OR '' (concat (map (like_filters_of ?n (h_department ?h)) ?toks))"
      using params by simp_all
    have chars: "\<forall>t \<in> set ?toks. t \<noteq> [] \<and> (\<forall>c \<in> set t. bind_char c)"
      by (rule query_tokens_lower)
    have vals: "\<forall>(k, v) \<in> set params.
               \<exists>t \<in> set ?toks. \<exists>t' \<in> set ?toks. (k = t \<or> k = t @ ''_d'') \<and> v = ''%'' @ t' @ ''%''"
      using fold_token_step_values [of _ _ ?n "h_department ?h" ?toks "[]" "[]"]
      unfolding p by auto
    have keys: "\<forall>t \<in> set ?toks. t \<in> fst ` set params
                      \<and> (truthy (h_department ?h) \<longrightarrow> t @ ''_d'' \<in> fst ` set params)"
      unfolding p fold_token_step_keys by auto
    from m sql base chars vals keys b
    have "fst (map_natural_language_to_schema q sc) = Some table
         \<and> sql = optimize_sql_query (fst ?T) page ps
         \<and> set ?toks \<subseteq> set (query_tokens (lower q))
         \<and> (\<forall>t \<in> set ?toks. t \<noteq> [] \<and> (\<forall>c \<in> set t. bind_char c))
         \<and> (\<forall>(k, v) \<in> set params.
               \<exists>t \<in> set ?toks. \<exists>t' \<in> set ?toks. (k = t \<or> k = t @ ''_d'') \<and> v = ''%'' @ t' @ ''%'')
         \<and> (fst ?T \<in> schema_only_sql table ?h \<and> params = []
             \<or> ?toks \<noteq> []
               \<and> fst ?T = ''SELECT * FROM '' @ table @ '' WHERE ''
                          @ join '' OR '' (concat (map (like_filters_of ?n (h_department ?h)) ?toks))
               \<and> (\<forall>t \<in> set ?toks. t \<in> fst ` set params
                      \<and> (truthy (h_department ?h) \<longrightarrow> t @ ''_d'' \<in> fst ` set params)))"
      by blast
    then show ?thesis by blast
  qed
qed

text \<open>
  C1 as stated fails: the tokens of the query are interpolated into the text of the
  statement, as the names of the bind parameters.
\<close>

theorem sql_statement_text_counterexample:
  "sql_statement demo_schema ''alice'' 1 50
     = Inr (''SELECT * FROM employees WHERE LOWER(full_name) LIKE :alice OR LOWER(dept_id) LIKE :alice_d LIMIT 50 OFFSET 0'',
            [(''alice_d'', ''%alice%''), (''alice'', ''%alice%'')],
            [''emp_id'', ''full_name'', ''dept_id'', ''position'', ''annual_salary'',
             ''join_date'', ''office_location''])
   \<and> sublist ''alice''
        ''SELECT * FROM employees WHERE LOWER(full_name) LIKE :alice OR LOWER(dept_id) LIKE :alice_d LIMIT 50 OFFSET 0''
   \<and> sql_statement demo_schema ''bob'' 1 50
     = Inr (''SELECT * FROM employees WHERE LOWER(full_name) LIKE :bob OR LOWER(dept_id) LIKE :bob_d LIMIT 50 OFFSET 0'',
            [(''bob_d'', ''%bob%''), (''bob'', ''%bob%'')],
            [''emp_id'', ''full_name'', ''dept_id'', ''position'', ''annual_salary'',
             ''join_date'', ''office_location''])"
  by code_simp

theorem sql_statement_parametrized_witness:
  "sql_statement demo_schema ''alice'' 1 50
     = Inr (''SELECT * FROM employees WHERE LOWER(full_name) LIKE :alice OR LOWER(dept_id) LIKE :alice_d LIMIT 50 OFFSET 0'',
            [(''alice_d'', ''%alice%''), (''alice'', ''%alice%'')],
            [''emp_id'', ''full_name'', ''dept_id'', ''position'', ''annual_salary'',
             ''join_date'', ''office_location''])
   \<and> (\<exists>table base toks.
           fst (map_natural_language_to_schema ''alice'' demo_schema) = Some table
         \<and> 
            ''SELECT * FROM employees WHERE LOWER(full_name) LIKE :alice OR LOWER(dept_id) LIKE :alice_d LIMIT 50 OFFSET 0'' = optimize_sql_query base 1 50
         \<and> set toks \<subseteq> set (query_tokens (lower ''alice''))
         \<and> (\<forall>t \<in> set toks. t \<noteq> [] \<and> (\<forall>c \<in> set t. bind_char c))
         \<and> (\<forall>(k, v) \<in> set [(''alice_d'', ''%alice%''), (''alice'', ''%alice%'')].
               \<exists>t \<in> set toks. \<exists>t' \<in> set toks. (k = t \<or> k = t @ ''_d'') \<and> v = ''%'' @ t' @ ''%'')
         \<and> (base \<in> schema_only_sql table (hints_of demo_schema table) \<and> [(''alice_d'', ''%alice%''), (''alice'', ''%alice%'')] = []
             \<or> toks \<noteq> []
               \<and> base = ''SELECT * FROM '' @ table @ '' WHERE ''
                          @ join '' OR ''
                              (concat (map (like_filters_of (name_col_of demo_schema table 
             [''emp_id'', ''full_name'', ''dept_id'', ''position'', ''annual_salary'',
             ''join_date'', ''office_location''])
                                              (h_department (hints_of demo_schema table))) toks))
               \<and> (\<forall>t \<in> set toks. t \<in> fst ` set [(''alice_d'', ''%alice%''), (''alice'', ''%alice%'')]
                      \<and> (truthy (h_department (hints_of demo_schema table))
                           \<longrightarrow> t @ ''_d'' \<in> fst ` set [(''alice_d'', ''%alice%''), (''alice'', ''%alice%'')]))))"
proof -
  have h: "sql_statement demo_schema ''alice'' 1 50
     = Inr (''SELECT * FROM employees WHERE LOWER(full_name) LIKE :alice OR LOWER(dept_id) LIKE :alice_d LIMIT 50 OFFSET 0'',
            [(''alice_d'', ''%alice%''), (''alice'', ''%alice%'')],
            [''emp_id'', ''full_name'', ''dept_id'', ''position'', ''annual_salary'',
             ''join_date'', ''office_location''])"
    by code_simp
  show ?thesis by (rule conjI [OF h sql_statement_parametrized [OF h]])
qed

section \<open>Properties of the ingestion routes\<close>

lemma save_step_lengths:
  "save_step sv f st = (fs', saved', errs') \<Longrightarrow>
     length saved' + length errs' = Suc (length (fst (snd st)) + length (snd (snd st)))"
  by (cases st) (auto simp: save_step_def Let_def split: prod.splits option.splits)

lemma fold_save_step_lengths:
  "fold (save_step sv) files st = (fs', saved', errs') \<Longrightarrow>
     length saved' + length errs' = length (fst (snd st)) + length (snd (snd st)) + length files"
proof (induction files arbitrary: st)
  case Nil
  then show ?case by auto
next
  case (Cons f files)
  obtain fs1 s1 e1 where st1: "save_step sv f st = (fs1, s1, e1)"
    by (cases "save_step sv f st") auto
  from Cons.prems have "fold (save_step sv) files (fs1, s1, e1) = (fs', saved', errs')"
    by (simp add: st1)
  from Cons.IH [OF this] save_step_lengths [OF st1] show ?case by simp
qed

lemma save_step_contents:
  "save_step sv f st = (fs', saved', errs') \<Longrightarrow>
     set saved' \<subseteq> set (fst (snd st)) \<union> {safe_name f}
     \<and> set errs' \<subseteq> set (snd (snd st)) \<union> {m. \<exists>e. m = safe_name f @ '': '' @ e}"
  by (cases st) (auto simp: save_step_def Let_def split: prod.splits option.splits)

lemma fold_save_step_contents:
  "fold (save_step sv) files st = (fs', saved', errs') \<Longrightarrow>
     set saved' \<subseteq> set (fst (snd st)) \<union> safe_name ` set files
     \<and> set errs' \<subseteq> set (snd (snd st))
                      \<union> {m. \<exists>f \<in> set files. \<exists>e. m = safe_name f @ '': '' @ e}"
proof (induction files arbitrary: st)
  case Nil
  then show ?case by auto
next
  case (Cons f files)
  obtain fs1 s1 e1 where st1: "save_step sv f st = (fs1, s1, e1)"
    by (cases "save_step sv f st") auto
  from Cons.prems have "fold (save_step sv) files (fs1, s1, e1) = (fs', saved', errs')"
    by (simp add: st1)
  from Cons.IH [OF this] save_step_contents [OF st1] show ?case by auto
qed

lemma upload_documents_ok:
  assumes "ensure_storage_dirs env = None" "aiofiles_import env = None" "files \<noteq> []"
  shows "upload_documents env js fs files =
     (let r = fold (save_step (save env)) files (fs, [], [])
      in (Inr \<lparr>ur_job_id = uuid4 env, ur_accepted = int (length (fst (snd r)))\<rparr>,
          js(uuid4 env \<mapsto> \<lparr>status = ''queued'', processed = 0,
                                total = int (length (fst (snd r))), errors = snd (snd r)\<rparr>),
          fst r, fst (snd r)))"
  using assms by (simp add: upload_documents_def Let_def case_prod_beta)

lemma upload_documents_Inr:
  assumes "upload_documents env js fs files = (Inr resp, js', fs', saved)"
  shows "ensure_storage_dirs env = None \<and> aiofiles_import env = None \<and> files \<noteq> []"
  using assms
  by (auto simp: upload_documents_def Let_def split: option.splits if_splits prod.splits)

lemma get_status_cases:
  "(js j = None \<longrightarrow> get_status js j = Inl (HTTPException 404 ''Job not found''))
   \<and> (\<forall>info. js j = Some info \<longrightarrow>
         get_status js j = Inr \<lparr>st_job_id = j, st_status = status info,
                                 st_processed = processed info, st_total = total info,
                                 st_errors = errors info\<rparr>)"
  by (simp add: get_status_def)

lemma save_trace_names: "map fst (snd (save_trace sv fs files)) = map safe_name files"
  by (induction files arbitrary: fs) (simp_all add: Let_def case_prod_beta)

lemma trace_lengths: "length (saved_names tr) + length (error_lines tr) = length tr"
  by (induction tr) (auto simp: saved_names_def error_lines_def)

lemma fold_save_step_trace:
  "fold (save_step sv) files (fs, saved, errs) =
     (fst (save_trace sv fs files),
      saved @ saved_names (snd (save_trace sv fs files)),
      errs @ error_lines (snd (save_trace sv fs files)))"
proof (induction files arbitrary: fs saved errs)
  case Nil
  then show ?case by (simp add: saved_names_def error_lines_def)
next
  case (Cons f files)
  obtain fs1 exc where w: "sv fs (safe_name f) (content f) = (fs1, exc)"
    by (cases "sv fs (safe_name f) (content f)") auto
  show ?case
  proof (cases exc)
    case None
    with w have st: "save_step sv f (fs, saved, errs) = (fs1, saved @ [safe_name f], errs)"
      by (simp add: save_step_def)
    show ?thesis
      using w None
      by (simp add: st Cons.IH Let_def case_prod_beta saved_names_def error_lines_def)
  next
    case (Some e)
    with w have st: "save_step sv f (fs, saved, errs)
                       = (fs1, saved, errs @ [safe_name f @ '': '' @ e])"
      by (simp add: save_step_def)
    show ?thesis
      using w Some
      by (simp add: st Cons.IH Let_def case_prod_beta saved_names_def error_lines_def)
  qed
qed

text \<open>
  C7. A call of upload_documents that can prepare its storage, with at least one file,
  returns a response. Every call that returns one has written the files in order through
  the save function, has put a new job record (queued, nothing processed) under the
  UUID it drew and returns that UUID as job_id; accepted and the total of the job are
  both the number of files whose write succeeded; every file whose write failed has
  left its line "name: exception" in the errors of the job and is not counted; no other
  job is touched. get_status fails with HTTP 404 for an id without a job and returns
  status, processed, total and errors of the job otherwise.
\<close>

theorem upload_documents_job:
  "(ensure_storage_dirs env = None \<and> aiofiles_import env = None \<and> files \<noteq> [] \<longrightarrow>
      (\<exists>resp js' fs' saved. upload_documents env js fs files = (Inr resp, js', fs', saved)))
   \<and> (\<forall>resp js' fs' saved.
         upload_documents env js fs files = (Inr resp, js', fs', saved) \<longrightarrow>
           files \<noteq> []
         \<and> ur_job_id resp = uuid4 env
         \<and> fs' = fst (save_trace (save env) fs files)
         \<and> map fst (snd (save_trace (save env) fs files)) = map safe_name files
         \<and> saved = saved_names (snd (save_trace (save env) fs files))
         \<and> ur_accepted resp = int (length saved)
         \<and> ur_accepted resp
             = int (length (filter (\<lambda>(n, exc). exc = None) (snd (save_trace (save env) fs files))))
         \<and> js' (uuid4 env)
             = Some \<lparr>status = ''queued'', processed = 0, total = int (length saved),
                     errors = error_lines (snd (save_trace (save env) fs files))\<rparr>
         \<and> length saved + length (error_lines (snd (save_trace (save env) fs files)))
             = length files
         \<and> (\<forall>m \<in> set (error_lines (snd (save_trace (save env) fs files))).
               \<exists>f \<in> set files. \<exists>e. m = safe_name f @ '': '' @ e)
         \<and> set saved \<subseteq> safe_name ` set files
         \<and> (\<forall>j. j \<noteq> uuid4 env \<longrightarrow> js' j = js j))
   \<and> (js j = None \<longrightarrow> get_status js j = Inl (HTTPException 404 ''Job not found''))
   \<and> (\<forall>info. js j = Some info \<longrightarrow>
         get_status js j = Inr \<lparr>st_job_id = j, st_status = status info,
                                 st_processed = processed info, st_total = total info,
                                 st_errors = errors info\<rparr>)"
proof -
  let ?tr = "snd (save_trace (save env) fs files)"
  have a: "\<exists>resp js' fs' saved. upload_documents env js fs files = (Inr resp, js', fs', saved)"
    if "ensure_storage_dirs env = None \<and> aiofiles_import env = None \<and> files \<noteq> []"
    using that by (simp add: upload_documents_ok Let_def)
  have b: "files \<noteq> []
         \<and> ur_job_id resp = uuid4 env
         \<and> fs' = fst (save_trace (save env) fs files)
         \<and> map fst ?tr = map safe_name files
         \<and> saved = saved_names ?tr
         \<and> ur_accepted resp = int (length saved)
         \<and> ur_accepted resp = int (length (filter (\<lambda>(n, exc). exc = None) ?tr))
         \<and> js' (uuid4 env)
             = Some \<lparr>status = ''queued'', processed = 0, total = int (length saved),
                     errors = error_lines ?tr\<rparr>
         \<and> length saved + length (error_lines ?tr) = length files
         \<and> (\<forall>m \<in> set (error_lines ?tr). \<exists>f \<in> set files. \<exists>e. m = safe_name f @ '': '' @ e)
         \<and> set saved \<subseteq> safe_name ` set files
         \<and> (\<forall>j. j \<noteq> uuid4 env \<longrightarrow> js' j = js j)"
    if u: "upload_documents env js fs files = (Inr resp, js', fs', saved)" for resp js' fs' saved
  proof -
    from upload_documents_Inr [OF u]
    have ok: "ensure_storage_dirs env = None" "aiofiles_import env = None" "files \<noteq> []"
      by auto
    have r: "fold (save_step (save env)) files (fs, [], [])
               = (fst (save_trace (save env) fs files), saved_names ?tr, error_lines ?tr)"
      using fold_save_step_trace [of "save env" files fs "[]" "[]"] by simp
    have n: "map fst ?tr = map safe_name files" by (rule save_trace_names)
    then have "length ?tr = length files" by (metis length_map)
    with trace_lengths [of ?tr]
    have len: "length (saved_names ?tr) + length (error_lines ?tr) = length files" by simp
    from fold_save_step_contents [OF r]
    have cont: "set (saved_names ?tr) \<subseteq> safe_name ` set files"
      "\<forall>m \<in> set (error_lines ?tr). \<exists>f \<in> set files. \<exists>e. m = safe_name f @ '': '' @ e"
      by auto
    have cnt: "length (saved_names ?tr) = length (filter (\<lambda>(n, exc). exc = None) ?tr)"
      by (simp add: saved_names_def)
    from u have eq: "resp = \<lparr>ur_job_id = uuid4 env, ur_accepted = int (length (saved_names ?tr))\<rparr>"
      "js' = js(uuid4 env \<mapsto> \<lparr>status = ''queued'', processed = 0,
                                total = int (length (saved_names ?tr)), errors = error_lines ?tr\<rparr>)"
      "fs' = fst (save_trace (save env) fs files)"
      "saved = saved_names ?tr"
      unfolding upload_documents_ok [OF ok] Let_def r by auto
    from eq len cont cnt n ok(3) show ?thesis by auto
  qed
  from a b get_status_cases [of js j] show ?thesis by blast
qed

theorem upload_documents_job_witness:
  "ensure_storage_dirs demo_upload_env = None \<and> aiofiles_import demo_upload_env = None
   \<and> demo_files \<noteq> []
   \<and> save_trace (save demo_upload_env) [] demo_files
       = ([''alice.pdf'', ''upload.bin''],
          [(''alice.pdf'', None), ([], Some ''Is a directory''), (''upload.bin'', None)])
   \<and> (\<exists>resp js' fs' saved.
         upload_documents demo_upload_env Map.empty [] demo_files = (Inr resp, js', fs', saved)
       \<and> ur_job_id resp = uuid4 demo_upload_env
       \<and> ur_accepted resp = 2
       \<and> fs' = [''alice.pdf'', ''upload.bin'']
       \<and> saved = [''alice.pdf'', ''upload.bin'']
       \<and> js' (uuid4 demo_upload_env)
            = Some \<lparr>status = ''queued'', processed = 0, total = 2,
                    errors = ['': Is a directory'']\<rparr>
       \<and> get_status js' ''unknown'' = Inl (HTTPException 404 ''Job not found'')
       \<and> get_status js' (uuid4 demo_upload_env)
            = Inr \<lparr>st_job_id = uuid4 demo_upload_env, st_status = ''queued'',
                   st_processed = 0, st_total = 2, st_errors = ['': Is a directory'']\<rparr>)
   \<and> ensure_storage_dirs full_disk_env = None \<and> aiofiles_import full_disk_env = None
   \<and> (\<exists>resp js' fs' saved.
         upload_documents full_disk_env Map.empty [] demo_files = (Inr resp, js', fs', saved)
       \<and> ur_accepted resp = 0
       \<and> saved = []
       \<and> js' (uuid4 full_disk_env)
            = Some \<lparr>status = ''queued'', processed = 0, total = 0,
                    errors = [''alice.pdf: No space left on device'',
                              '': No space left on device'',
                              ''upload.bin: No space left on device'']\<rparr>)"
proof -
  have h: "ensure_storage_dirs demo_upload_env = None \<and> aiofiles_import demo_upload_env = None
           \<and> demo_files \<noteq> []"
    by (simp add: demo_upload_env_def demo_files_def)
  have tr: "save_trace (save demo_upload_env) [] demo_files
       = ([''alice.pdf'', ''upload.bin''],
          [(''alice.pdf'', None), ([], Some ''Is a directory''), (''upload.bin'', None)])"
    by code_simp
  have sn: "saved_names [(''alice.pdf'', None), ([], Some ''Is a directory''), (''upload.bin'', None)]
              = [''alice.pdf'', ''upload.bin'']"
    by (simp add: saved_names_def)
  have el: "error_lines [(''alice.pdf'', None), ([], Some ''Is a directory''), (''upload.bin'', None)]
              = ['': Is a directory'']"
    by (simp add: error_lines_def)
  have ne: "''unknown'' \<noteq> uuid4 demo_upload_env" by (simp add: demo_upload_env_def)
  note T = upload_documents_job [of demo_upload_env demo_files Map.empty "[]"]
  from T [of "''unknown''", THEN conjunct1, rule_format, OF h]
  obtain resp js' fs' saved where
    u: "upload_documents demo_upload_env Map.empty [] demo_files = (Inr resp, js', fs', saved)"
    by blast
  note P = T [of "''unknown''", THEN conjunct2, THEN conjunct1, rule_format, OF u, unfolded tr]
  from P have p1: "ur_job_id resp = uuid4 demo_upload_env" by simp
  from P have p2: "fs' = [''alice.pdf'', ''upload.bin'']" by simp
  from P have p3: "saved = [''alice.pdf'', ''upload.bin'']" by (simp add: sn)
  from P p3 have p4: "ur_accepted resp = 2" by simp
  from P p3 have p5: "js' (uuid4 demo_upload_env)
            = Some \<lparr>status = ''queued'', processed = 0, total = 2,
                    errors = ['': Is a directory'']\<rparr>"
    by (simp add: el)
  from P ne have un: "js' ''unknown'' = None" by simp
  note G = upload_documents_job [of demo_upload_env demo_files js' "[]"]
  from G [of "''unknown''", THEN conjunct2, THEN conjunct2, THEN conjunct1, rule_format, OF un]
  have g1: "get_status js' ''unknown'' = Inl (HTTPException 404 ''Job not found'')" .
  from G [of "uuid4 demo_upload_env", THEN conjunct2, THEN conjunct2, THEN conjunct2,
          rule_format, OF p5]
  have g2: "get_status js' (uuid4 demo_upload_env)
            = Inr \<lparr>st_job_id = uuid4 demo_upload_env, st_status = ''queued'',
                   st_processed = 0, st_total = 2, st_errors = ['': Is a directory'']\<rparr>"
    by simp
  have first: "\<exists>resp js' fs' saved.
         upload_documents demo_upload_env Map.empty [] demo_files = (Inr resp, js', fs', saved)
       \<and> ur_job_id resp = uuid4 demo_upload_env
       \<and> ur_accepted resp = 2
       \<and> fs' = [''alice.pdf'', ''upload.bin'']
       \<and> saved = [''alice.pdf'', ''upload.bin'']
       \<and> js' (uuid4 demo_upload_env)
            = Some \<lparr>status = ''queued'', processed = 0, total = 2,
                    errors = ['': Is a directory'']\<rparr>
       \<and> get_status js' ''unknown'' = Inl (HTTPException 404 ''Job not found'')
       \<and> get_status js' (uuid4 demo_upload_env)
            = Inr \<lparr>st_job_id = uuid4 demo_upload_env, st_status = ''queued'',
                   st_processed = 0, st_total = 2, st_errors = ['': Is a directory'']\<rparr>"
    using u p1 p4 p2 p3 p5 g1 g2 by blast
  have h2: "ensure_storage_dirs full_disk_env = None \<and> aiofiles_import full_disk_env = None
           \<and> demo_files \<noteq> []"
    by (simp add: full_disk_env_def demo_files_def)
  have tr2: "save_trace (save full_disk_env) [] demo_files
       = ([], [(''alice.pdf'', Some ''No space left on device''),
               ([], Some ''No space left on device''),
               (''upload.bin'', Some ''No space left on device'')])"
    by code_simp
  note T2 = upload_documents_job [of full_disk_env demo_files Map.empty "[]"]
  from T2 [of "''unknown''", THEN conjunct1, rule_format, OF h2]
  obtain resp2 js2 fs2 saved2 where
    u2: "upload_documents full_disk_env Map.empty [] demo_files = (Inr resp2, js2, fs2, saved2)"
    by blast
  note P2 = T2 [of "''unknown''", THEN conjunct2, THEN conjunct1, rule_format, OF u2, unfolded tr2]
  from P2 have q3: "saved2 = []" by (simp add: saved_names_def)
  from P2 q3 have q4: "ur_accepted resp2 = 0" by simp
  from P2 q3 have q5: "js2 (uuid4 full_disk_env)
            = Some \<lparr>status = ''queued'', processed = 0, total = 0,
                    errors = [''alice.pdf: No space left on device'',
                              '': No space left on device'',
                              ''upload.bin: No space left on device'']\<rparr>"
    by (simp add: error_lines_def)
  have second: "\<exists>resp js' fs' saved.
         upload_documents full_disk_env Map.empty [] demo_files = (Inr resp, js', fs', saved)
       \<and> ur_accepted resp = 0
       \<and> saved = []
       \<and> js' (uuid4 full_disk_env)
            = Some \<lparr>status = ''queued'', processed = 0, total = 0,
                    errors = [''alice.pdf: No space left on device'',
                              '': No space left on device'',
                              ''upload.bin: No space left on device'']\<rparr>"
    using u2 q4 q3 q5 by blast
  from h tr first h2 second show ?thesis by blast
qed

end
